theory Spec2Isabelle
  imports Complex_Main "HOL-Library.Stream" "HOL-Library.Sublist" "HOL-Library.Multiset"
    "HOL-Library.Log_Nat"
begin

section \<open>A-Lister: the store (db.ts), the schema (schema.sql) and the tool handlers (server.ts)\<close>

text \<open>
  The program is a tool server over four PostgreSQL tables. The embedding keeps the
  tables as lists of rows in insertion order, and makes explicit everything the
  TypeScript leaves to its environment:
  \<^item> \<^verbatim>\<open>uuidv4()\<close>, \<^verbatim>\<open>now()\<close> and \<^verbatim>\<open>Math.random()\<close> read the next element of a stream
    held in the state, so every theorem holds for all values they may return;
  \<^item> a thrown \<^verbatim>\<open>Error\<close>, a \<^verbatim>\<open>TypeError\<close> on \<^verbatim>\<open>null.id\<close> and a statement the database
    rejects are values of type \<open>error\<close>, returned together with the state reached;
  \<^item> every writing statement handed to \<^verbatim>\<open>query\<close> is appended to the field \<open>writes\<close>,
    so that "no write is issued" can be stated.

  Embedded are the queries and writes of db.ts and, of server.ts, the view assembly and
  the handlers \<open>add_item\<close>, \<open>update_item\<close>, \<open>set_item_status\<close>, \<open>bookmark_item\<close> and
  \<open>search_users\<close>. Input validation by the tool schemas happens before a handler runs
  and is not part of it.
\<close>

subsection \<open>Rows of the four tables (schema.sql)\<close>

datatype status = Active | Done

record user_row =
  u_id :: string
  u_auth_provider_id :: string
  u_handle :: string
  u_display_name :: "string option"
  u_bio :: "string option"
  u_avatar_url :: "string option"
  u_created_at :: nat

record list_row =
  l_id :: string
  l_owner_id :: string
  l_title :: string
  l_type :: string
  l_visibility :: string
  l_created_at :: nat
  l_updated_at :: nat

record item_row =
  i_id :: string
  i_list_id :: string
  i_title :: string
  i_note :: "string option"
  i_url :: "string option"
  i_status :: status
  i_order_index :: int
  i_created_at :: nat
  i_updated_at :: nat

record bookmark_row =
  b_id :: string
  b_user_id :: string
  b_source_item_id :: string
  b_source_list_id :: string
  b_source_user_id :: string
  b_created_item_id :: string
  b_created_at :: nat

subsection \<open>Writing statements\<close>

text \<open>
  \<open>ensureUser\<close> and \<open>updateItem\<close> assemble their \<^verbatim>\<open>update ... set\<close> clause from the
  fields that are to be written; a clause is one \<open>user_set\<close> or \<open>item_set\<close>.
\<close>

datatype user_set =
    SetDisplayName "string option"
  | SetAvatarUrl "string option"
  | SetHandle string

datatype item_set =
    SetTitle string
  | SetNote "string option"
  | SetUrl "string option"

datatype stmt =
    InsertUser string string string "string option" "string option"
  | UpdateUser "user_set list" string
  | InsertList string string string string
  | InsertItem string string string "string option" "string option"
  | UpdateItem "item_set list" string string
  | UpdateItemStatus status string string
  | InsertBookmark string string string string string string

datatype pg_error = unique_violation | foreign_key_violation

datatype error =
    Error string
  | TypeError
  | DatabaseError pg_error

subsection \<open>The state\<close>

record world =
  users :: "user_row list"
  lists :: "list_row list"
  items :: "item_row list"
  bookmarks :: "bookmark_row list"
  uuids :: "string stream"
  clock :: "nat stream"
  randoms :: "real stream"
  writes :: "stmt list"
  viewerCache :: "user_row option"
  DEV_TOOLS_ENABLED :: bool

type_synonym 'a io = "world \<Rightarrow> (error + 'a) \<times> world"

definition ok :: "'a \<Rightarrow> 'a io" where
  "ok x w = (Inr x, w)"

definition throw :: "error \<Rightarrow> 'a io" where
  "throw e w = (Inl e, w)"

text \<open>\<^verbatim>\<open>const x = await m; ...\<close>: the rest runs only when \<open>m\<close> did not throw.\<close>

definition await :: "'a io \<Rightarrow> ('a \<Rightarrow> 'b io) \<Rightarrow> 'b io" where
  "await m f w = (case m w of (Inl e, w') \<Rightarrow> (Inl e, w') | (Inr x, w') \<Rightarrow> f x w')"

definition uuidv4 :: "string io" where
  "uuidv4 w = (Inr (shd (uuids w)), w\<lparr>uuids := stl (uuids w)\<rparr>)"

definition Math_random :: "real io" where
  "Math_random w = (Inr (shd (randoms w)), w\<lparr>randoms := stl (randoms w)\<rparr>)"

subsection \<open>What the database does with a writing statement\<close>

fun apply_user_set :: "user_set \<Rightarrow> user_row \<Rightarrow> user_row" where
  "apply_user_set (SetDisplayName d) u = u\<lparr>u_display_name := d\<rparr>"
| "apply_user_set (SetAvatarUrl a) u = u\<lparr>u_avatar_url := a\<rparr>"
| "apply_user_set (SetHandle h) u = u\<lparr>u_handle := h\<rparr>"

fun apply_item_set :: "item_set \<Rightarrow> item_row \<Rightarrow> item_row" where
  "apply_item_set (SetTitle t) i = i\<lparr>i_title := t\<rparr>"
| "apply_item_set (SetNote n) i = i\<lparr>i_note := n\<rparr>"
| "apply_item_set (SetUrl v) i = i\<lparr>i_url := v\<rparr>"

text \<open>
  \<open>run_stmt s now w\<close> is the effect of statement \<open>s\<close> on the tables, \<open>now\<close> being the
  value of \<^verbatim>\<open>now()\<close> in it. The constraints are those of schema.sql: primary keys,
  the two \<^verbatim>\<open>unique\<close> columns of \<open>users\<close>, and the foreign keys \<open>lists.owner_id\<close>,
  \<open>items.list_id\<close> and \<open>bookmarks.user_id\<close>. A rejected statement changes no table.
  An \<^verbatim>\<open>update\<close> rewrites the rows its \<^verbatim>\<open>where\<close> clause selects, in place.
\<close>

fun run_stmt :: "stmt \<Rightarrow> nat \<Rightarrow> world \<Rightarrow> pg_error + world" where
  "run_stmt (InsertUser uid auth h dn av) now w =
     (if uid \<in> set (map u_id (users w)) \<or> auth \<in> set (map u_auth_provider_id (users w))
         \<or> h \<in> set (map u_handle (users w))
      then Inl unique_violation
      else Inr (w\<lparr>users := users w @
        [\<lparr>u_id = uid, u_auth_provider_id = auth, u_handle = h, u_display_name = dn,
          u_bio = None, u_avatar_url = av, u_created_at = now\<rparr>]\<rparr>))"
| "run_stmt (UpdateUser sets uid) now w =
     (let users' = map (\<lambda>u. if u_id u = uid then fold apply_user_set sets u else u) (users w)
      in if distinct (map u_handle users') then Inr (w\<lparr>users := users'\<rparr>)
         else Inl unique_violation)"
| "run_stmt (InsertList lid owner t ty) now w =
     (if lid \<in> set (map l_id (lists w)) then Inl unique_violation
      else if owner \<notin> set (map u_id (users w)) then Inl foreign_key_violation
      else Inr (w\<lparr>lists := lists w @
        [\<lparr>l_id = lid, l_owner_id = owner, l_title = t, l_type = ty, l_visibility = ''public'',
          l_created_at = now, l_updated_at = now\<rparr>]\<rparr>))"
| "run_stmt (InsertItem iid lid t n v) now w =
     (if iid \<in> set (map i_id (items w)) then Inl unique_violation
      else if lid \<notin> set (map l_id (lists w)) then Inl foreign_key_violation
      else Inr (w\<lparr>items := items w @
        [\<lparr>i_id = iid, i_list_id = lid, i_title = t, i_note = n, i_url = v, i_status = Active,
          i_order_index = 0, i_created_at = now, i_updated_at = now\<rparr>]\<rparr>))"
| "run_stmt (UpdateItem sets iid lid) now w =
     Inr (w\<lparr>items := map (\<lambda>i. if i_id i = iid \<and> i_list_id i = lid
        then (fold apply_item_set sets i)\<lparr>i_updated_at := now\<rparr> else i) (items w)\<rparr>)"
| "run_stmt (UpdateItemStatus st iid lid) now w =
     Inr (w\<lparr>items := map (\<lambda>i. if i_id i = iid \<and> i_list_id i = lid
        then i\<lparr>i_status := st, i_updated_at := now\<rparr> else i) (items w)\<rparr>)"
| "run_stmt (InsertBookmark bid uid sitem slist suser citem) now w =
     (if bid \<in> set (map b_id (bookmarks w)) then Inl unique_violation
      else if uid \<notin> set (map u_id (users w)) then Inl foreign_key_violation
      else Inr (w\<lparr>bookmarks := bookmarks w @
        [\<lparr>b_id = bid, b_user_id = uid, b_source_item_id = sitem, b_source_list_id = slist,
          b_source_user_id = suser, b_created_item_id = citem, b_created_at = now\<rparr>]\<rparr>))"

text \<open>
  \<^verbatim>\<open>await query(text, values)\<close> for a writing statement: the statement is recorded as
  issued, reads the clock once, and either takes effect or throws.
\<close>

definition query_write :: "stmt \<Rightarrow> unit io" where
  "query_write s w =
     (let now = shd (clock w);
          w1 = w\<lparr>clock := stl (clock w), writes := writes w @ [s]\<rparr>
      in case run_stmt s now w1 of
           Inl e \<Rightarrow> (Inl (DatabaseError e), w1)
         | Inr w2 \<Rightarrow> (Inr (), w2))"

subsection \<open>Numbers: double-precision product and sum\<close>

text \<open>
  A JavaScript number is an IEEE 754 double, taken here as the real number it denotes.
  \<^verbatim>\<open>a * b\<close> and \<^verbatim>\<open>a + b\<close> are the exact product and sum rounded to the nearest double,
  ties to the even significand. \<open>exponent x\<close> is the binary exponent of \<open>x\<close>, not below
  \<open>-1022\<close> (subnormal doubles share the spacing \<open>2^-1074\<close>), and \<open>ulp x\<close> the spacing of the
  doubles around \<open>x\<close>. The rounding is written for \<open>0 \<le> x < 2^1024\<close>, where the operands
  of \<open>resolveHandle\<close> lie.
\<close>

fun doublings :: "nat \<Rightarrow> real \<Rightarrow> nat" where
  "doublings 0 x = 0"
| "doublings (Suc n) x = (if x < 1 then Suc (doublings n (2 * x)) else 0)"

definition exponent :: "real \<Rightarrow> int" where
  "exponent x = (if 1 \<le> x then bitlen \<lfloor>x\<rfloor> - 1 else - int (doublings 1022 x))"

definition ulp :: "real \<Rightarrow> real" where
  "ulp x = 2 powi (exponent x - 52)"

definition round_half_even :: "real \<Rightarrow> int" where
  "round_half_even t =
     (if frac t < 1 / 2 then \<lfloor>t\<rfloor>
      else if 1 / 2 < frac t then \<lceil>t\<rceil>
      else if even \<lfloor>t\<rfloor> then \<lfloor>t\<rfloor> else \<lceil>t\<rceil>)"

definition to_double :: "real \<Rightarrow> real" where
  "to_double x = of_int (round_half_even (x / ulp x)) * ulp x"

definition double_mul :: "real \<Rightarrow> real \<Rightarrow> real" where
  "double_mul a b = to_double (a * b)"

definition double_add :: "real \<Rightarrow> real \<Rightarrow> real" where
  "double_add a b = to_double (a + b)"

subsection \<open>Strings: decimal numerals, lower case, \<^verbatim>\<open>like\<close>\<close>

text \<open>
  Strings are lists of 8-bit characters; what follows is exact for ASCII text.
  \<open>number_to_string\<close> is the conversion a template literal applies to an integral number
  (below \<open>10^21\<close> in absolute value, where JavaScript switches to exponent notation).
\<close>

function digits :: "nat \<Rightarrow> string" where
  "digits n = (if n < 10 then [char_of (48 + n)] else digits (n div 10) @ [char_of (48 + n mod 10)])"
  by pat_completeness auto
termination
  by (relation "measure id") auto

declare digits.simps [simp del]

definition number_to_string :: "int \<Rightarrow> string" where
  "number_to_string i = (if i < 0 then CHR ''-'' # digits (nat (- i)) else digits (nat i))"


definition lower_char :: "char \<Rightarrow> char" where
  "lower_char c = (if 65 \<le> (of_char c :: nat) \<and> (of_char c :: nat) \<le> 90
                   then char_of ((of_char c :: nat) + 32) else c)"

text \<open>\<^verbatim>\<open>s.toLowerCase()\<close> in JavaScript and \<^verbatim>\<open>lower(s)\<close> in SQL.\<close>

definition toLowerCase :: "string \<Rightarrow> string" where
  "toLowerCase s = map lower_char s"

text \<open>
  \<open>like p s\<close> is PostgreSQL's \<^verbatim>\<open>s like p\<close>: in the pattern \<^verbatim>\<open>%\<close> stands for any run of
  characters, \<^verbatim>\<open>_\<close> for any one character, and a backslash makes the next pattern
  character literal. (A pattern ending in a lone backslash makes PostgreSQL raise when
  the match reaches it; \<open>searchUsersByQuery\<close> always appends \<^verbatim>\<open>%\<close>, so no pattern it
  builds ends that way, and the case is a mismatch here.)
\<close>

fun like :: "string \<Rightarrow> string \<Rightarrow> bool" where
  "like [] s = (s = [])"
| "like (p # ps) [] = (p = CHR ''%'' \<and> like ps [])"
| "like (p # ps) (c # cs) =
     (if p = CHR ''%'' then like ps (c # cs) \<or> like (p # ps) cs
      else if p = CHR ''_'' then like ps cs
      else if p = CHR 0x5C then (case ps of [] \<Rightarrow> False | q # qs \<Rightarrow> q = c \<and> like qs cs)
      else p = c \<and> like ps cs)"

subsection \<open>Reading queries (db.ts)\<close>

text \<open>
  \<^verbatim>\<open>order by created_at desc\<close>. SQL leaves the order of rows with equal keys open; here
  they keep the order they have in the table (the sort is stable).
\<close>

definition order_by_desc :: "('a \<Rightarrow> nat) \<Rightarrow> 'a list \<Rightarrow> 'a list" where
  "order_by_desc key rows = sort_key (\<lambda>r. - int (key r)) rows"

text \<open>\<^verbatim>\<open>rows[0] ?? null\<close>\<close>

definition first_row :: "'a list \<Rightarrow> 'a option" where
  "first_row rows = (case rows of [] \<Rightarrow> None | r # _ \<Rightarrow> Some r)"

text \<open>\<^verbatim>\<open>x ?? null\<close> for an optional, nullable parameter: \<open>None\<close> is \<^verbatim>\<open>undefined\<close>, \<open>Some None\<close> is \<^verbatim>\<open>null\<close>.\<close>

definition or_null :: "'a option option \<Rightarrow> 'a option" where
  "or_null x = (case x of None \<Rightarrow> None | Some v \<Rightarrow> v)"

definition getUserByAuthProviderId :: "string \<Rightarrow> world \<Rightarrow> user_row option" where
  "getUserByAuthProviderId authProviderId w =
     first_row (filter (\<lambda>u. u_auth_provider_id u = authProviderId) (users w))"

definition getUserById :: "string \<Rightarrow> world \<Rightarrow> user_row option" where
  "getUserById userId w = first_row (filter (\<lambda>u. u_id u = userId) (users w))"

definition searchUsersByQuery :: "string \<Rightarrow> world \<Rightarrow> user_row list" where
  "searchUsersByQuery queryText w =
     (let q = ''%'' @ toLowerCase queryText @ ''%''
      in take 20 (order_by_desc u_created_at
           (filter (\<lambda>u. like q (toLowerCase (u_handle u)) \<or>
                        (case u_display_name u of None \<Rightarrow> False
                         | Some d \<Rightarrow> like q (toLowerCase d)))
              (users w))))"

record ListSummary =
  ls_id :: string
  ls_owner_id :: string
  ls_title :: string
  ls_type :: string
  ls_visibility :: string
  ls_active_count :: int
  ls_done_count :: int
  ls_owner_handle :: string
  ls_owner_display_name :: "string option"

text \<open>
  One row of the grouped join of \<open>getListsByOwner\<close> and \<open>getListSummaryById\<close>: list \<open>l\<close>
  joined with its owner \<open>u\<close>, the two sums running over the items of \<open>l\<close>.
\<close>

definition list_summary :: "world \<Rightarrow> list_row \<Rightarrow> user_row \<Rightarrow> ListSummary" where
  "list_summary w l u =
     \<lparr>ls_id = l_id l, ls_owner_id = l_owner_id l, ls_title = l_title l, ls_type = l_type l,
      ls_visibility = l_visibility l,
      ls_active_count =
        (\<Sum>i \<leftarrow> filter (\<lambda>i. i_list_id i = l_id l) (items w). if i_status i = Active then 1 else 0),
      ls_done_count =
        (\<Sum>i \<leftarrow> filter (\<lambda>i. i_list_id i = l_id l) (items w). if i_status i = Done then 1 else 0),
      ls_owner_handle = u_handle u, ls_owner_display_name = u_display_name u\<rparr>"

definition getListsByOwner :: "string \<Rightarrow> world \<Rightarrow> ListSummary list" where
  "getListsByOwner ownerId w =
     concat (map (\<lambda>l. map (list_summary w l) (filter (\<lambda>u. u_id u = l_owner_id l) (users w)))
       (order_by_desc l_created_at (filter (\<lambda>l. l_owner_id l = ownerId) (lists w))))"

definition getListSummaryById :: "string \<Rightarrow> world \<Rightarrow> ListSummary option" where
  "getListSummaryById listId w =
     first_row (concat (map (\<lambda>l. map (list_summary w l) (filter (\<lambda>u. u_id u = l_owner_id l) (users w)))
       (filter (\<lambda>l. l_id l = listId) (lists w))))"

record ListBasics =
  lb_id :: string
  lb_owner_id :: string
  lb_title :: string
  lb_type :: string
  lb_visibility :: string

definition getListById :: "string \<Rightarrow> world \<Rightarrow> ListBasics option" where
  "getListById listId w =
     first_row (map (\<lambda>l. \<lparr>lb_id = l_id l, lb_owner_id = l_owner_id l, lb_title = l_title l,
                          lb_type = l_type l, lb_visibility = l_visibility l\<rparr>)
       (filter (\<lambda>l. l_id l = listId) (lists w)))"

record ItemRow =
  ir_id :: string
  ir_list_id :: string
  ir_title :: string
  ir_note :: "string option"
  ir_url :: "string option"
  ir_status :: status
  ir_order_index :: int
  ir_created_at :: nat

definition item_columns :: "item_row \<Rightarrow> ItemRow" where
  "item_columns i =
     \<lparr>ir_id = i_id i, ir_list_id = i_list_id i, ir_title = i_title i, ir_note = i_note i,
      ir_url = i_url i, ir_status = i_status i, ir_order_index = i_order_index i,
      ir_created_at = i_created_at i\<rparr>"

definition getItemsByList :: "string \<Rightarrow> status \<Rightarrow> world \<Rightarrow> ItemRow list" where
  "getItemsByList listId st w =
     map item_columns (order_by_desc i_created_at
       (filter (\<lambda>i. i_list_id i = listId \<and> i_status i = st) (items w)))"

record SourceItem =
  si_id :: string
  si_title :: string
  si_note :: "string option"
  si_url :: "string option"
  si_list_id :: string
  si_list_title :: string
  si_list_type :: string
  si_owner_id :: string
  si_owner_handle :: string

definition findSourceItem :: "string \<Rightarrow> world \<Rightarrow> SourceItem option" where
  "findSourceItem sourceItemId w =
     first_row (concat (map (\<lambda>i. concat (map (\<lambda>l. map (\<lambda>u.
         \<lparr>si_id = i_id i, si_title = i_title i, si_note = i_note i, si_url = i_url i,
          si_list_id = i_list_id i, si_list_title = l_title l, si_list_type = l_type l,
          si_owner_id = l_owner_id l, si_owner_handle = u_handle u\<rparr>)
         (filter (\<lambda>u. u_id u = l_owner_id l) (users w)))
        (filter (\<lambda>l. l_id l = i_list_id i) (lists w))))
       (filter (\<lambda>i. i_id i = sourceItemId) (items w))))"

subsection \<open>Writing operations (db.ts)\<close>

text \<open>
  \<open>resolveHandle\<close> is the function nested in \<open>ensureUser\<close>; \<open>authProviderId\<close> is the
  \<^verbatim>\<open>params.authProviderId\<close> it closes over. \<^verbatim>\<open>Math.random()\<close> is a double in \<open>[0, 1)\<close>,
  so at most \<open>1 - 2^-53\<close>; \<^verbatim>\<open>Math.random() * 9000 + 1000\<close> is computed in doubles.
\<close>

definition resolveHandle :: "string \<Rightarrow> string \<Rightarrow> string io" where
  "resolveHandle authProviderId base w =
     (let candidate = base;
          existing = filter (\<lambda>u. u_handle u = candidate) (users w)
      in if existing = [] \<or> u_auth_provider_id (hd existing) = authProviderId
         then ok candidate w
         else await Math_random (\<lambda>r.
                let suffix = \<lfloor>double_add (double_mul r 9000) 1000\<rfloor>
                in ok (base @ ''_'' @ number_to_string suffix)) w)"

definition ensureUser ::
  "string \<Rightarrow> string \<Rightarrow> string option option \<Rightarrow> string option option \<Rightarrow> user_row option io" where
  "ensureUser authProviderId handle displayName avatarUrl =
     await (resolveHandle authProviderId handle) (\<lambda>safeHandle w.
       case getUserByAuthProviderId authProviderId w of
         Some existing \<Rightarrow>
           (let updates =
                  (case displayName of
                     Some d \<Rightarrow> if d \<noteq> u_display_name existing then [SetDisplayName d] else []
                   | None \<Rightarrow> []) @
                  (case avatarUrl of
                     Some a \<Rightarrow> if a \<noteq> u_avatar_url existing then [SetAvatarUrl a] else []
                   | None \<Rightarrow> []) @
                  (if safeHandle \<noteq> u_handle existing then [SetHandle safeHandle] else [])
            in await (if updates \<noteq> [] then query_write (UpdateUser updates (u_id existing))
                      else ok ())
                 (\<lambda>_ w'. ok (getUserByAuthProviderId authProviderId w') w') w)
       | None \<Rightarrow>
           await uuidv4 (\<lambda>uid.
             await (query_write (InsertUser uid authProviderId safeHandle
                      (or_null displayName) (or_null avatarUrl)))
               (\<lambda>_ w'. ok (getUserById uid w') w')) w)"

definition createList :: "string \<Rightarrow> string \<Rightarrow> string \<Rightarrow> string io" where
  "createList ownerId title type =
     await uuidv4 (\<lambda>lid. await (query_write (InsertList lid ownerId title type)) (\<lambda>_. ok lid))"

definition addItem ::
  "string \<Rightarrow> string \<Rightarrow> string option option \<Rightarrow> string option option \<Rightarrow> string io" where
  "addItem listId title note url =
     await uuidv4 (\<lambda>iid.
       await (query_write (InsertItem iid listId title (or_null note) (or_null url)))
         (\<lambda>_. ok iid))"

definition updateItem ::
  "string \<Rightarrow> string \<Rightarrow> string option \<Rightarrow> string option option \<Rightarrow> string option option
     \<Rightarrow> unit io" where
  "updateItem itemId listId title note url =
     (let updates =
            (case title of Some t \<Rightarrow> [SetTitle t] | None \<Rightarrow> []) @
            (case note of Some n \<Rightarrow> [SetNote n] | None \<Rightarrow> []) @
            (case url of Some v \<Rightarrow> [SetUrl v] | None \<Rightarrow> [])
      in if updates = [] then ok ()
         else query_write (UpdateItem updates itemId listId))"

definition setItemStatus :: "string \<Rightarrow> string \<Rightarrow> status \<Rightarrow> unit io" where
  "setItemStatus itemId listId st = query_write (UpdateItemStatus st itemId listId)"

definition createBookmark ::
  "string \<Rightarrow> string \<Rightarrow> string \<Rightarrow> string \<Rightarrow> string \<Rightarrow> unit io" where
  "createBookmark userId sourceItemId sourceListId sourceUserId createdItemId =
     await uuidv4 (\<lambda>bid.
       query_write (InsertBookmark bid userId sourceItemId sourceListId sourceUserId createdItemId))"

definition getOrCreateListByType :: "string \<Rightarrow> string \<Rightarrow> string \<Rightarrow> string io" where
  "getOrCreateListByType ownerId type fallbackTitle w =
     (let rows = take 1 (order_by_desc l_created_at
                   (filter (\<lambda>l. l_owner_id l = ownerId \<and> l_type l = type) (lists w)))
      in case rows of
           r # _ \<Rightarrow> ok (l_id r) w
         | [] \<Rightarrow> createList ownerId fallbackTitle type w)"

subsection \<open>View assembly (server.ts)\<close>

record UserSummary =
  us_id :: string
  us_handle :: string
  us_displayName :: "string option"
  us_avatarUrl :: "string option"

datatype mode = mine | profile | search

record View =
  v_viewer :: UserSummary
  v_devTools :: bool
  v_mode :: mode
  v_lists :: "ListSummary list"
  v_selectedList :: "ListSummary option"
  v_itemsActive :: "ItemRow list"
  v_itemsDone :: "ItemRow list"
  v_profileUser :: "UserSummary option"
  v_profileLists :: "ListSummary list option"
  v_searchResults :: "UserSummary list option"

datatype effects =
    lastCreatedListId string
  | lastAddedItemId string
  | lastMovedItemId string status
  | lastBookmarkItemId string

record CallToolResult =
  r_message :: string
  r_view :: View
  r_effects :: "effects option"

definition buildStructuredResponse :: "View \<Rightarrow> effects option \<Rightarrow> string \<Rightarrow> CallToolResult" where
  "buildStructuredResponse view eff message = \<lparr>r_message = message, r_view = view, r_effects = eff\<rparr>"

definition requireListOwner :: "string \<Rightarrow> string \<Rightarrow> unit io" where
  "requireListOwner listOwnerId viewerId =
     (if listOwnerId \<noteq> viewerId then throw (Error ''You can only modify your own lists.'')
      else ok ())"

definition user_summary :: "user_row \<Rightarrow> UserSummary" where
  "user_summary u =
     \<lparr>us_id = u_id u, us_handle = u_handle u, us_displayName = u_display_name u,
      us_avatarUrl = u_avatar_url u\<rparr>"

definition buildViewerSummary :: "string \<Rightarrow> UserSummary io" where
  "buildViewerSummary viewerId w =
     (case getUserById viewerId w of
        None \<Rightarrow> throw (Error ''Viewer not found.'') w
      | Some viewer \<Rightarrow> ok (user_summary viewer) w)"

text \<open>\<^verbatim>\<open>!listId\<close> for a \<^verbatim>\<open>string | null\<close>: null and the empty string are falsy.\<close>

definition falsy :: "string option \<Rightarrow> bool" where
  "falsy x = (case x of None \<Rightarrow> True | Some s \<Rightarrow> s = [])"

definition buildListView :: "string \<Rightarrow> string option \<Rightarrow> View io" where
  "buildListView viewerId listId0 =
     await (buildViewerSummary viewerId) (\<lambda>viewer w.
       let lists = getListsByOwner viewerId w;
           listId = (if falsy listId0 \<and> lists \<noteq> [] then Some (ls_id (hd lists)) else listId0)
       in if falsy listId then
            ok \<lparr>v_viewer = viewer, v_devTools = DEV_TOOLS_ENABLED w, v_mode = mine, v_lists = lists,
                v_selectedList = None, v_itemsActive = [], v_itemsDone = [],
                v_profileUser = None, v_profileLists = None, v_searchResults = None\<rparr> w
          else
            (case getListSummaryById (the listId) w of
               None \<Rightarrow> throw (Error ''List not found.'') w
             | Some selected \<Rightarrow>
                 (let itemsActive = getItemsByList (the listId) Active w;
                      itemsDone = getItemsByList (the listId) Done w
                  in if ls_owner_id selected \<noteq> viewerId then
                       (let profileUser =
                              (case getUserById (ls_owner_id selected) w of
                                 Some profileRecord \<Rightarrow> user_summary profileRecord
                               | None \<Rightarrow>
                                   \<lparr>us_id = ls_owner_id selected, us_handle = ls_owner_handle selected,
                                    us_displayName = ls_owner_display_name selected,
                                    us_avatarUrl = None\<rparr>);
                            profileLists = getListsByOwner (ls_owner_id selected) w
                        in ok \<lparr>v_viewer = viewer, v_devTools = DEV_TOOLS_ENABLED w, v_mode = profile,
                               v_lists = lists, v_selectedList = Some selected,
                               v_itemsActive = itemsActive, v_itemsDone = itemsDone,
                               v_profileUser = Some profileUser, v_profileLists = Some profileLists,
                               v_searchResults = None\<rparr> w)
                     else
                       ok \<lparr>v_viewer = viewer, v_devTools = DEV_TOOLS_ENABLED w, v_mode = mine,
                           v_lists = lists, v_selectedList = Some selected,
                           v_itemsActive = itemsActive, v_itemsDone = itemsDone,
                           v_profileUser = None, v_profileLists = None,
                           v_searchResults = None\<rparr> w)))"

definition buildSearchView :: "string \<Rightarrow> string \<Rightarrow> View io" where
  "buildSearchView viewerId query =
     await (buildViewerSummary viewerId) (\<lambda>viewer w.
       let lists = getListsByOwner viewerId w;
           results = (if query \<noteq> [] then searchUsersByQuery query w else [])
       in ok \<lparr>v_viewer = viewer, v_devTools = DEV_TOOLS_ENABLED w, v_mode = search, v_lists = lists,
              v_selectedList = None, v_itemsActive = [], v_itemsDone = [],
              v_profileUser = None, v_profileLists = None,
              v_searchResults = Some (map user_summary results)\<rparr> w)"

subsection \<open>The tool handlers (server.ts, createMcpServer)\<close>

record AuthContext =
  ac_authProviderId :: string
  ac_handle :: string
  ac_displayName :: "string option option"
  ac_avatarUrl :: "string option option"

text \<open>
  \<open>viewerCache\<close> belongs to one server instance, which serves the calls of one request;
  a fresh instance starts with \<open>viewerCache = None\<close>.
\<close>

definition getViewer :: "AuthContext \<Rightarrow> user_row option io" where
  "getViewer authContext w =
     (case viewerCache w of
        Some v \<Rightarrow> ok (Some v) w
      | None \<Rightarrow>
          await (ensureUser (ac_authProviderId authContext) (ac_handle authContext)
                   (Some (or_null (ac_displayName authContext)))
                   (Some (or_null (ac_avatarUrl authContext))))
            (\<lambda>v w'. ok v (w'\<lparr>viewerCache := v\<rparr>)) w)"

text \<open>\<^verbatim>\<open>viewer.id\<close>: reading a property of \<^verbatim>\<open>null\<close> throws a TypeError.\<close>

definition viewer_id :: "user_row option \<Rightarrow> string io" where
  "viewer_id viewer = (case viewer of None \<Rightarrow> throw TypeError | Some v \<Rightarrow> ok (u_id v))"

definition add_item ::
  "AuthContext \<Rightarrow> string \<Rightarrow> string \<Rightarrow> string option option \<Rightarrow> string option option
     \<Rightarrow> CallToolResult io" where
  "add_item authContext list_id title note url =
     await (getViewer authContext) (\<lambda>viewer w.
       case getListById list_id w of
         None \<Rightarrow> throw (Error ''List not found.'') w
       | Some list \<Rightarrow>
           await (viewer_id viewer) (\<lambda>vid.
             await (requireListOwner (lb_owner_id list) vid) (\<lambda>_.
               await (addItem list_id title note url) (\<lambda>itemId.
                 await (buildListView vid (Some list_id)) (\<lambda>view.
                   ok (buildStructuredResponse view (Some (lastAddedItemId itemId))
                         ''Item added.''))))) w)"

definition update_item ::
  "AuthContext \<Rightarrow> string \<Rightarrow> string \<Rightarrow> string option \<Rightarrow> string option option
     \<Rightarrow> string option option \<Rightarrow> CallToolResult io" where
  "update_item authContext list_id item_id title note url =
     await (getViewer authContext) (\<lambda>viewer w.
       case getListById list_id w of
         None \<Rightarrow> throw (Error ''List not found.'') w
       | Some list \<Rightarrow>
           await (viewer_id viewer) (\<lambda>vid.
             await (requireListOwner (lb_owner_id list) vid) (\<lambda>_.
               await (updateItem item_id list_id title note url) (\<lambda>_.
                 await (buildListView vid (Some list_id)) (\<lambda>view.
                   ok (buildStructuredResponse view None ''Item updated.''))))) w)"

definition set_item_status ::
  "AuthContext \<Rightarrow> string \<Rightarrow> string \<Rightarrow> status \<Rightarrow> CallToolResult io" where
  "set_item_status authContext list_id item_id st =
     await (getViewer authContext) (\<lambda>viewer w.
       case getListById list_id w of
         None \<Rightarrow> throw (Error ''List not found.'') w
       | Some list \<Rightarrow>
           await (viewer_id viewer) (\<lambda>vid.
             await (requireListOwner (lb_owner_id list) vid) (\<lambda>_.
               await (setItemStatus item_id list_id st) (\<lambda>_.
                 await (buildListView vid (Some list_id)) (\<lambda>view.
                   ok (buildStructuredResponse view (Some (lastMovedItemId item_id st))
                         ''Item moved.''))))) w)"

text \<open>
  \<open>viewing_list_id\<close> is optional and nullable; \<^verbatim>\<open>undefined\<close> and \<^verbatim>\<open>null\<close> behave alike under
  \<^verbatim>\<open>??\<close> and under the truth test, and both are \<open>None\<close> here.
\<close>

definition bookmark_item :: "AuthContext \<Rightarrow> string \<Rightarrow> string option \<Rightarrow> CallToolResult io" where
  "bookmark_item authContext source_item_id viewing_list_id =
     await (getViewer authContext) (\<lambda>viewer.
       await (viewer_id viewer) (\<lambda>viewerId w.
         case findSourceItem source_item_id w of
           None \<Rightarrow> throw (Error ''Source item not found.'') w
         | Some source \<Rightarrow>
             if si_owner_id source = viewerId then
               await (buildListView viewerId
                        (Some (case viewing_list_id of None \<Rightarrow> si_list_id source | Some l \<Rightarrow> l)))
                 (\<lambda>view. ok (buildStructuredResponse view
                                (Some (lastBookmarkItemId source_item_id))
                                ''That item is already yours.'')) w
             else
               await (getOrCreateListByType viewerId (si_list_type source) (si_list_title source))
                 (\<lambda>targetListId.
                   await (addItem targetListId (si_title source) (Some (si_note source))
                            (Some (si_url source)))
                     (\<lambda>createdItemId.
                       await (createBookmark viewerId (si_id source) (si_list_id source)
                                (si_owner_id source) createdItemId)
                         (\<lambda>_.
                           await (if \<not> falsy viewing_list_id
                                  then buildListView viewerId viewing_list_id
                                  else buildListView viewerId (Some targetListId))
                             (\<lambda>view. ok (buildStructuredResponse view
                                            (Some (lastBookmarkItemId source_item_id))
                                            ''Item bookmarked.''))))) w))"

definition search_users :: "AuthContext \<Rightarrow> string \<Rightarrow> CallToolResult io" where
  "search_users authContext query =
     await (getViewer authContext) (\<lambda>viewer.
       await (viewer_id viewer) (\<lambda>vid.
         await (buildSearchView vid query) (\<lambda>view.
           ok (buildStructuredResponse view None ''Search results.''))))"

subsection \<open>An example state\<close>

text \<open>
  Two users; \<open>alice\<close> owns the list "Books" of type "book", which holds the item "Dune",
  already moved to done. The server instance is fresh, and the next three identifiers
  \<^verbatim>\<open>uuidv4()\<close> returns are unused.
\<close>

definition ex_alice :: user_row where
  "ex_alice = \<lparr>u_id = ''a0000000-0000-4000-8000-000000000001'', u_auth_provider_id = ''dev-alice'',
     u_handle = ''alice'', u_display_name = Some ''alice'', u_bio = None, u_avatar_url = None,
     u_created_at = 100\<rparr>"

definition ex_bob :: user_row where
  "ex_bob = \<lparr>u_id = ''a0000000-0000-4000-8000-000000000002'', u_auth_provider_id = ''dev-bob'',
     u_handle = ''bob'', u_display_name = Some ''bob'', u_bio = None, u_avatar_url = None,
     u_created_at = 200\<rparr>"

definition ex_books :: list_row where
  "ex_books = \<lparr>l_id = ''b0000000-0000-4000-8000-000000000001'',
     l_owner_id = ''a0000000-0000-4000-8000-000000000001'', l_title = ''Books'', l_type = ''book'',
     l_visibility = ''public'', l_created_at = 300, l_updated_at = 300\<rparr>"

definition ex_dune :: item_row where
  "ex_dune = \<lparr>i_id = ''c0000000-0000-4000-8000-000000000001'',
     i_list_id = ''b0000000-0000-4000-8000-000000000001'', i_title = ''Dune'', i_note = None,
     i_url = None, i_status = Done, i_order_index = 0, i_created_at = 400, i_updated_at = 450\<rparr>"

definition ex_world :: world where
  "ex_world = \<lparr>users = [ex_alice, ex_bob], lists = [ex_books], items = [ex_dune], bookmarks = [],
     uuids = ''d0000000-0000-4000-8000-000000000001'' ##
             ''d0000000-0000-4000-8000-000000000002'' ##
             ''d0000000-0000-4000-8000-000000000003'' ##
             sconst ''d0000000-0000-4000-8000-000000000004'',
     clock = siterate Suc 500, randoms = sconst (1 / 2), writes = [], viewerCache = None,
     DEV_TOOLS_ENABLED = False\<rparr>"

definition ex_auth_alice :: AuthContext where
  "ex_auth_alice = \<lparr>ac_authProviderId = ''dev-alice'', ac_handle = ''alice'',
     ac_displayName = Some (Some ''alice''), ac_avatarUrl = None\<rparr>"

definition ex_auth_bob :: AuthContext where
  "ex_auth_bob = \<lparr>ac_authProviderId = ''dev-bob'', ac_handle = ''bob'',
     ac_displayName = Some (Some ''bob''), ac_avatarUrl = None\<rparr>"

definition ex_auth_carol :: AuthContext where
  "ex_auth_carol = \<lparr>ac_authProviderId = ''dev-carol'', ac_handle = ''carol'',
     ac_displayName = Some (Some ''carol''), ac_avatarUrl = None\<rparr>"

text \<open>
  The same state with the next two random numbers fixed, and with a third user, dave,
  whose handle is "alice_5500".
\<close>

definition ex_world_draw :: world where
  "ex_world_draw = ex_world\<lparr>randoms := 1 / 2 ## sconst (1 / 4)\<rparr>"

definition ex_dave :: user_row where
  "ex_dave = \<lparr>u_id = ''a0000000-0000-4000-8000-000000000004'', u_auth_provider_id = ''dev-dave'',
     u_handle = ''alice_5500'', u_display_name = Some ''dave'', u_bio = None, u_avatar_url = None,
     u_created_at = 250\<rparr>"

definition ex_world_taken :: world where
  "ex_world_taken = ex_world_draw\<lparr>users := [ex_alice, ex_bob, ex_dave]\<rparr>"

subsection \<open>Statements that write only the \<open>users\<close> table\<close>

fun users_stmt :: "stmt \<Rightarrow> bool" where
  "users_stmt (InsertUser _ _ _ _ _) = True"
| "users_stmt (UpdateUser _ _) = True"
| "users_stmt _ = False"

subsection \<open>Identifiers not yet in use\<close>

text \<open>\<^verbatim>\<open>uuidv4()\<close> is expected to return identifiers no row carries yet.\<close>

definition unused :: "string \<Rightarrow> world \<Rightarrow> bool" where
  "unused x w = (x \<notin> set (map l_id (lists w)) \<and> x \<notin> set (map i_id (items w))
                 \<and> x \<notin> set (map b_id (bookmarks w)))"

subsection \<open>The characters \<^verbatim>\<open>like\<close> does not take literally\<close>

definition wildcard :: "char \<Rightarrow> bool" where
  "wildcard c = (c = CHR ''%'' \<or> c = CHR ''_'' \<or> c = CHR 0x5C)"

section \<open>Properties\<close>

subsection \<open>Collections of defining equations\<close>

lemmas io_defs = await_def ok_def throw_def uuidv4_def Math_random_def query_write_def Let_def

lemmas store_defs = getUserByAuthProviderId_def getUserById_def first_row_def or_null_def
  getListById_def getListSummaryById_def getListsByOwner_def list_summary_def getItemsByList_def
  item_columns_def findSourceItem_def order_by_desc_def resolveHandle_def ensureUser_def
  double_mul_def double_add_def
  createList_def addItem_def updateItem_def setItemStatus_def createBookmark_def
  getOrCreateListByType_def searchUsersByQuery_def

lemmas server_defs = buildStructuredResponse_def requireListOwner_def user_summary_def
  buildViewerSummary_def falsy_def buildListView_def buildSearchView_def getViewer_def
  viewer_id_def add_item_def update_item_def set_item_status_def bookmark_item_def
  search_users_def

lemmas ex_defs = ex_world_def ex_alice_def ex_bob_def ex_books_def ex_dune_def
  ex_auth_alice_def ex_auth_bob_def ex_auth_carol_def ex_world_draw_def ex_dave_def
  ex_world_taken_def

subsection \<open>Sorting and projection\<close>

lemma insort_key_map_comm:
  "insort_key k (f x) (map f xs) = map f (insort_key (\<lambda>a. k (f a)) x xs)"
  by (induction xs) auto

lemma sort_key_map_comm:
  "sort_key k (map f xs) = map f (sort_key (\<lambda>a. k (f a)) xs)"
  by (induction xs) (auto simp: insort_key_map_comm)

lemma order_by_desc_map:
  "order_by_desc k (map f xs) = map f (order_by_desc (\<lambda>a. k (f a)) xs)"
  by (simp add: order_by_desc_def sort_key_map_comm)

lemma getItemsByList_columns:
  "getItemsByList listId st w =
     order_by_desc ir_created_at
       (filter (\<lambda>r. ir_list_id r = listId \<and> ir_status r = st) (map item_columns (items w)))"
  by (simp add: getItemsByList_def order_by_desc_map filter_map comp_def item_columns_def)

lemma sorted_wrt_order_by_desc:
  "sorted_wrt (\<lambda>a b. k b \<le> k a) (order_by_desc k xs)"
proof -
  have "sorted (map (\<lambda>r. - int (k r)) (order_by_desc k xs))"
    unfolding order_by_desc_def by (rule sorted_sort_key)
  then show ?thesis by (simp add: sorted_map)
qed

lemma mset_order_by_desc: "mset (order_by_desc k xs) = mset xs"
  by (simp add: order_by_desc_def)


lemma list_summary_columns:
  "map item_columns (items w') = map item_columns (items w) \<Longrightarrow>
   list_summary w' = list_summary w"
proof (intro ext)
  fix l u
  assume h: "map item_columns (items w') = map item_columns (items w)"
  have cnt: "(\<Sum>i \<leftarrow> filter (\<lambda>i. i_list_id i = k) (items v). if i_status i = s then 1 else 0)
      = (\<Sum>r \<leftarrow> filter (\<lambda>r. ir_list_id r = k) (map item_columns (items v)).
           if ir_status r = s then (1::int) else 0)" for v k s
    by (simp add: filter_map comp_def item_columns_def)
  show "list_summary w' l u = list_summary w l u"
    by (simp add: list_summary_def cnt h)
qed

lemma reads_columns:
  assumes "map item_columns (items w') = map item_columns (items w)"
    and "lists w' = lists w" and "users w' = users w"
  shows "getItemsByList listId st w' = getItemsByList listId st w"
    and "getListsByOwner ownerId w' = getListsByOwner ownerId w"
    and "getListSummaryById listId w' = getListSummaryById listId w"
  using assms
  by (simp_all add: getItemsByList_columns getListsByOwner_def getListSummaryById_def
      list_summary_columns [OF assms(1)])

lemma setItemStatus_world:
  "setItemStatus itemId listId st w =
     (Inr (), w\<lparr>clock := stl (clock w),
               writes := writes w @ [UpdateItemStatus st itemId listId],
               items := map (\<lambda>i. if i_id i = itemId \<and> i_list_id i = listId
                      then i\<lparr>i_status := st, i_updated_at := shd (clock w)\<rparr> else i) (items w)\<rparr>)"
  by (simp add: setItemStatus_def query_write_def Let_def)

subsection \<open>Sequencing, and what each operation leaves unchanged\<close>

lemma await_simps:
  "m w = (Inl e, w') \<Longrightarrow> await m f w = (Inl e, w')"
  "m w = (Inr x, w') \<Longrightarrow> await m f w = f x w'"
  by (simp_all add: await_def)

lemma resolveHandle_frame:
  "resolveHandle a h w = (r, w') \<Longrightarrow>
     (\<exists>s. r = Inr s) \<and> users w' = users w \<and> lists w' = lists w \<and> items w' = items w
     \<and> bookmarks w' = bookmarks w \<and> writes w' = writes w \<and> viewerCache w' = viewerCache w"
  by (auto simp: resolveHandle_def Let_def ok_def await_def Math_random_def split: if_splits)

lemma query_write_users_frame:
  "users_stmt s \<Longrightarrow> query_write s w = (r, w') \<Longrightarrow>
     lists w' = lists w \<and> items w' = items w \<and> bookmarks w' = bookmarks w
     \<and> viewerCache w' = viewerCache w \<and> writes w' = writes w @ [s]"
  by (cases s) (auto simp: query_write_def Let_def split: if_splits sum.splits)


lemma ensureUser_frame:
  assumes "ensureUser a h dn av w = (r, w')"
  shows "lists w' = lists w \<and> items w' = items w \<and> bookmarks w' = bookmarks w
     \<and> viewerCache w' = viewerCache w
     \<and> (\<exists>ws. writes w' = writes w @ ws \<and> length ws \<le> 1 \<and> list_all users_stmt ws)"
proof -
  obtain s w0 where rh: "resolveHandle a h w = (Inr s, w0)"
    using resolveHandle_frame [of a h w] by (metis surj_pair)
  note f0 = resolveHandle_frame [OF rh]
  show ?thesis
  proof (cases "getUserByAuthProviderId a w0")
    case None
    obtain q w2 where q: "query_write (InsertUser (shd (uuids w0)) a s (or_null dn) (or_null av))
        (w0\<lparr>uuids := stl (uuids w0)\<rparr>) = (q, w2)"
      by (metis surj_pair)
    have fr: "lists w2 = lists w0 \<and> items w2 = items w0 \<and> bookmarks w2 = bookmarks w0
       \<and> viewerCache w2 = viewerCache w0
       \<and> writes w2 = writes w0 @ [InsertUser (shd (uuids w0)) a s (or_null dn) (or_null av)]"
      using query_write_users_frame [OF _ q] by simp
    have "w' = w2"
      using assms rh None q
      by (cases q) (auto simp: ensureUser_def await_def uuidv4_def ok_def)
    with fr f0 show ?thesis by simp
  next
    case (Some existing)
    define updates where "updates =
        (case dn of Some d \<Rightarrow> if d \<noteq> u_display_name existing then [SetDisplayName d] else []
         | None \<Rightarrow> []) @
        (case av of Some a \<Rightarrow> if a \<noteq> u_avatar_url existing then [SetAvatarUrl a] else []
         | None \<Rightarrow> []) @
        (if s \<noteq> u_handle existing then [SetHandle s] else [])"
    show ?thesis
    proof (cases "updates = []")
      case True
      then have "w' = w0"
        using assms rh Some
        by (auto simp: ensureUser_def await_def ok_def Let_def updates_def)
      with f0 show ?thesis by simp
    next
      case False
      obtain q w2 where q: "query_write (UpdateUser updates (u_id existing)) w0 = (q, w2)"
        by (metis surj_pair)
      have fr: "lists w2 = lists w0 \<and> items w2 = items w0 \<and> bookmarks w2 = bookmarks w0
         \<and> viewerCache w2 = viewerCache w0
         \<and> writes w2 = writes w0 @ [UpdateUser updates (u_id existing)]"
        using query_write_users_frame [OF _ q] by simp
      have "w' = w2"
        using assms rh Some q False
        by (cases q) (auto simp: ensureUser_def await_def ok_def Let_def updates_def)
      with fr f0 show ?thesis by simp
    qed
  qed
qed

lemma getViewer_frame:
  assumes "getViewer ctx w = (r, w')"
  shows "lists w' = lists w \<and> items w' = items w \<and> bookmarks w' = bookmarks w
     \<and> (\<exists>ws. writes w' = writes w @ ws \<and> length ws \<le> 1 \<and> list_all users_stmt ws)"
proof (cases "viewerCache w")
  case (Some v)
  with assms have "w' = w" by (simp add: getViewer_def ok_def)
  then show ?thesis by simp
next
  case None
  obtain r0 w0 where e: "ensureUser (ac_authProviderId ctx) (ac_handle ctx)
      (Some (or_null (ac_displayName ctx))) (Some (or_null (ac_avatarUrl ctx))) w = (r0, w0)"
    by (metis surj_pair)
  have "lists w' = lists w0 \<and> items w' = items w0 \<and> bookmarks w' = bookmarks w0
      \<and> writes w' = writes w0"
    using assms None e by (cases r0) (auto simp: getViewer_def await_def ok_def)
  with ensureUser_frame [OF e] show ?thesis by auto
qed


lemma buildViewerSummary_state: "snd (buildViewerSummary vid w) = w"
  by (simp add: buildViewerSummary_def ok_def throw_def split: option.splits)

lemma buildListView_state: "snd (buildListView vid lid w) = w"
  by (simp add: buildListView_def buildViewerSummary_def await_def ok_def throw_def Let_def
      split: option.splits)

lemma buildListView_error:
  "buildListView vid lid w = (Inl e, w') \<Longrightarrow> \<exists>m. e = Error m"
  by (auto simp: buildListView_def buildViewerSummary_def await_def ok_def throw_def Let_def
      split: option.splits if_splits)

lemma first_row_None: "first_row xs = None \<longleftrightarrow> xs = []"
  by (cases xs) (simp_all add: first_row_def)

lemma first_row_Some: "first_row xs = Some x \<Longrightarrow> x \<in> set xs"
  by (cases xs) (simp_all add: first_row_def)

lemma findSourceItem_Some:
  assumes "findSourceItem sid w = Some source"
  shows "\<exists>i l u. i \<in> set (items w) \<and> i_id i = sid \<and> l \<in> set (lists w) \<and> l_id l = i_list_id i
      \<and> u \<in> set (users w) \<and> u_id u = l_owner_id l
      \<and> si_id source = sid \<and> si_title source = i_title i \<and> si_note source = i_note i
      \<and> si_url source = i_url i \<and> si_list_id source = l_id l
      \<and> si_list_title source = l_title l \<and> si_list_type source = l_type l
      \<and> si_owner_id source = u_id u"
proof -
  from first_row_Some [OF assms [unfolded findSourceItem_def]]
  obtain i l u where "i \<in> set (items w)" "i_id i = sid" "l \<in> set (lists w)"
      "l_id l = i_list_id i" "u \<in> set (users w)" "u_id u = l_owner_id l"
      "source = \<lparr>si_id = i_id i, si_title = i_title i, si_note = i_note i, si_url = i_url i,
          si_list_id = i_list_id i, si_list_title = l_title l, si_list_type = l_type l,
          si_owner_id = l_owner_id l, si_owner_handle = u_handle u\<rparr>"
    by auto
  then show ?thesis
    by (intro exI [of _ i] exI [of _ l] exI [of _ u]) simp
qed

lemma createList_result:
  "createList ownerId t ty w = (r, w') \<Longrightarrow>
     (\<exists>e. r = Inl (DatabaseError e)) \<or>
     (r = Inr (shd (uuids w))
      \<and> lists w' = lists w @ [\<lparr>l_id = shd (uuids w), l_owner_id = ownerId, l_title = t, l_type = ty,
            l_visibility = ''public'', l_created_at = shd (clock w), l_updated_at = shd (clock w)\<rparr>]
      \<and> users w' = users w \<and> items w' = items w \<and> bookmarks w' = bookmarks w)"
  by (auto simp: createList_def io_defs split: if_splits)

lemma addItem_result:
  "addItem listId t n v w = (r, w') \<Longrightarrow>
     (\<exists>e. r = Inl (DatabaseError e)) \<or>
     (r = Inr (shd (uuids w))
      \<and> items w' = items w @ [\<lparr>i_id = shd (uuids w), i_list_id = listId, i_title = t,
            i_note = or_null n, i_url = or_null v, i_status = Active, i_order_index = 0,
            i_created_at = shd (clock w), i_updated_at = shd (clock w)\<rparr>]
      \<and> users w' = users w \<and> lists w' = lists w \<and> bookmarks w' = bookmarks w)"
  by (auto simp: addItem_def io_defs split: if_splits)

lemma createBookmark_result:
  "createBookmark uid sitem slist suser citem w = (r, w') \<Longrightarrow>
     (\<exists>e. r = Inl (DatabaseError e)) \<or>
     (r = Inr ()
      \<and> bookmarks w' = bookmarks w @ [\<lparr>b_id = shd (uuids w), b_user_id = uid,
            b_source_item_id = sitem, b_source_list_id = slist, b_source_user_id = suser,
            b_created_item_id = citem, b_created_at = shd (clock w)\<rparr>]
      \<and> users w' = users w \<and> lists w' = lists w \<and> items w' = items w)"
  by (auto simp: createBookmark_def io_defs split: if_splits)

lemma order_by_desc_hd:
  assumes "xs \<noteq> []"
  shows "hd (order_by_desc k xs) \<in> set xs \<and> (\<forall>x \<in> set xs. k x \<le> k (hd (order_by_desc k xs)))"
proof -
  have ne: "order_by_desc k xs \<noteq> []"
    using assms by (metis mset_order_by_desc mset_zero_iff)
  then obtain y ys where ys: "order_by_desc k xs = y # ys" by (cases "order_by_desc k xs") auto
  have st: "set (order_by_desc k xs) = set xs" by (simp add: order_by_desc_def)
  have "\<forall>x \<in> set ys. k x \<le> k y"
    using sorted_wrt_order_by_desc [of k xs] by (simp add: ys)
  with ys st show ?thesis by auto
qed


lemma await_ok: "await (ok x) f w = f x w"
  by (simp add: await_def ok_def)

lemma await_pure_state:
  "snd (m w) = w \<Longrightarrow> snd (await m (\<lambda>x. ok (f x)) w) = w"
  by (cases "m w") (auto simp: await_def ok_def split: sum.splits)

lemma await_response_message:
  "await m (\<lambda>view. ok (buildStructuredResponse view eff msg)) w = (Inr res, w') \<Longrightarrow>
     r_message res = msg \<and> r_effects res = eff"
  by (cases "m w") (auto simp: await_def ok_def buildStructuredResponse_def split: sum.splits)

lemma getOrCreateListByType_result:
  assumes "getOrCreateListByType ownerId ty t w = (r, w')"
  shows "(\<exists>e. r = Inl (DatabaseError e)) \<or>
     (users w' = users w \<and> items w' = items w \<and> bookmarks w' = bookmarks w \<and>
      (if filter (\<lambda>l. l_owner_id l = ownerId \<and> l_type l = ty) (lists w) \<noteq> []
       then lists w' = lists w \<and>
            r = Inr (l_id (hd (order_by_desc l_created_at
                  (filter (\<lambda>l. l_owner_id l = ownerId \<and> l_type l = ty) (lists w)))))
       else r = Inr (shd (uuids w)) \<and>
            lists w' = lists w @ [\<lparr>l_id = shd (uuids w), l_owner_id = ownerId, l_title = t,
              l_type = ty, l_visibility = ''public'', l_created_at = shd (clock w),
              l_updated_at = shd (clock w)\<rparr>]))"
proof (cases "filter (\<lambda>l. l_owner_id l = ownerId \<and> l_type l = ty) (lists w) = []")
  case True
  with assms have "createList ownerId t ty w = (r, w')"
    by (simp add: getOrCreateListByType_def order_by_desc_def)
  from createList_result [OF this] True show ?thesis by auto
next
  case False
  then have "order_by_desc l_created_at
      (filter (\<lambda>l. l_owner_id l = ownerId \<and> l_type l = ty) (lists w)) \<noteq> []"
    by (metis mset_order_by_desc mset_zero_iff)
  then obtain y ys where ys: "order_by_desc l_created_at
      (filter (\<lambda>l. l_owner_id l = ownerId \<and> l_type l = ty) (lists w)) = y # ys"
    by (cases "order_by_desc l_created_at
      (filter (\<lambda>l. l_owner_id l = ownerId \<and> l_type l = ty) (lists w))") auto
  with assms have "r = Inr (l_id y)" "w' = w"
    by (simp_all add: getOrCreateListByType_def ok_def)
  with False ys show ?thesis by simp
qed

lemma bookmark_item_effect:
  assumes V: "getViewer ctx w = (Inr (Some v), w1)"
    and S: "findSourceItem sid w1 = Some source"
    and O: "si_owner_id source \<noteq> u_id v"
    and R: "bookmark_item ctx sid viewing w = (r, w')"
    and NDB: "\<forall>e. r \<noteq> Inl (DatabaseError e)"
  shows "\<exists>tgt w2 copy bm.
      getOrCreateListByType (u_id v) (si_list_type source) (si_list_title source) w1 = (Inr tgt, w2)
      \<and> lists w' = lists w2 \<and> items w' = items w1 @ [copy] \<and> bookmarks w' = bookmarks w1 @ [bm]
      \<and> i_list_id copy = tgt \<and> i_title copy = si_title source \<and> i_note copy = si_note source
      \<and> i_url copy = si_url source \<and> i_status copy = Active \<and> i_order_index copy = 0
      \<and> b_user_id bm = u_id v \<and> b_source_item_id bm = si_id source
      \<and> b_source_list_id bm = si_list_id source \<and> b_source_user_id bm = si_owner_id source
      \<and> b_created_item_id bm = i_id copy
      \<and> (\<forall>res. r = Inr res \<longrightarrow> r_message res = ''Item bookmarked.'')"
proof -
  let ?k3 = "\<lambda>targetListId createdItemId (_::unit).
      await (if \<not> falsy viewing then buildListView (u_id v) viewing
             else buildListView (u_id v) (Some targetListId))
        (\<lambda>view. ok (buildStructuredResponse view (Some (lastBookmarkItemId sid))
                       ''Item bookmarked.''))"
  let ?k2 = "\<lambda>targetListId createdItemId.
      await (createBookmark (u_id v) (si_id source) (si_list_id source) (si_owner_id source)
               createdItemId) (?k3 targetListId createdItemId)"
  let ?k1 = "\<lambda>targetListId.
      await (addItem targetListId (si_title source) (Some (si_note source)) (Some (si_url source)))
        (?k2 targetListId)"
  let ?G = "getOrCreateListByType (u_id v) (si_list_type source) (si_list_title source)"
  have body: "bookmark_item ctx sid viewing w = await ?G ?k1 w1"
    using S O by (simp add: bookmark_item_def await_simps(2) [where m = "getViewer ctx", OF V]
        viewer_id_def await_ok)
  obtain g w2 where G: "?G w1 = (g, w2)" by (metis surj_pair)
  have "\<exists>tgt. g = Inr tgt"
  proof (cases g)
    case (Inl e)
    with getOrCreateListByType_result [OF G] obtain p where "e = DatabaseError p"
      by (auto split: if_splits)
    moreover have "r = Inl e" using R body G Inl by (simp add: await_def)
    ultimately show ?thesis using NDB by simp
  qed simp
  then obtain tgt where g: "g = Inr tgt" by blast
  have b1: "bookmark_item ctx sid viewing w = ?k1 tgt w2"
    using body G g by (simp add: await_def)
  obtain a w3 where A: "addItem tgt (si_title source) (Some (si_note source))
      (Some (si_url source)) w2 = (a, w3)" by (metis surj_pair)
  have "\<exists>cid. a = Inr cid"
  proof (cases a)
    case (Inl e)
    with addItem_result [OF A] obtain p where "e = DatabaseError p" by auto
    moreover have "r = Inl e" using R b1 A Inl by (simp add: await_def)
    ultimately show ?thesis using NDB by simp
  qed simp
  then obtain cid where a: "a = Inr cid" by blast
  have b2: "bookmark_item ctx sid viewing w = ?k2 tgt cid w3"
    using b1 A a by (simp add: await_def)
  obtain b w4 where B: "createBookmark (u_id v) (si_id source) (si_list_id source)
      (si_owner_id source) cid w3 = (b, w4)" by (metis surj_pair)
  have "b = Inr ()"
  proof (cases b)
    case (Inl e)
    with createBookmark_result [OF B] obtain p where "e = DatabaseError p" by auto
    moreover have "r = Inl e" using R b2 B Inl by (simp add: await_def)
    ultimately show ?thesis using NDB by simp
  qed simp
  then have b3: "bookmark_item ctx sid viewing w = ?k3 tgt cid () w4"
    using b2 B by (simp add: await_def)
  have "snd (?k3 tgt cid () w4) = w4"
    by (rule await_pure_state) (simp add: buildListView_state)
  with R b3 have w': "w' = w4" by simp
  have msg: "\<forall>res. r = Inr res \<longrightarrow> r_message res = ''Item bookmarked.''"
    using R b3 await_response_message [of _ "Some (lastBookmarkItemId sid)" "''Item bookmarked.''" w4]
    by auto
  from getOrCreateListByType_result [OF G] g
  have f2: "users w2 = users w1" "items w2 = items w1" "bookmarks w2 = bookmarks w1"
    by (auto split: if_splits)
  from addItem_result [OF A] a
  have f3: "cid = shd (uuids w2)"
      "items w3 = items w2 @ [\<lparr>i_id = shd (uuids w2), i_list_id = tgt, i_title = si_title source,
            i_note = si_note source, i_url = si_url source, i_status = Active, i_order_index = 0,
            i_created_at = shd (clock w2), i_updated_at = shd (clock w2)\<rparr>]"
      "lists w3 = lists w2" "bookmarks w3 = bookmarks w2"
    by (auto simp: or_null_def)
  from createBookmark_result [OF B] \<open>b = Inr ()\<close>
  have f4: "bookmarks w4 = bookmarks w3 @ [\<lparr>b_id = shd (uuids w3), b_user_id = u_id v,
            b_source_item_id = si_id source, b_source_list_id = si_list_id source,
            b_source_user_id = si_owner_id source, b_created_item_id = cid,
            b_created_at = shd (clock w3)\<rparr>]"
      "lists w4 = lists w3" "items w4 = items w3"
    by auto
  show ?thesis
    using G g w' f2 f3 f4 msg by simp
qed


lemma createList_accepted:
  assumes "shd (uuids w) \<notin> set (map l_id (lists w))" and "ownerId \<in> set (map u_id (users w))"
  shows "\<exists>w'. createList ownerId t ty w = (Inr (shd (uuids w)), w') \<and> uuids w' = stl (uuids w)"
  using assms by (simp add: createList_def io_defs)

lemma addItem_accepted:
  assumes "shd (uuids w) \<notin> set (map i_id (items w))" and "listId \<in> set (map l_id (lists w))"
  shows "\<exists>w'. addItem listId t n v w = (Inr (shd (uuids w)), w') \<and> uuids w' = stl (uuids w)"
  using assms by (simp add: addItem_def io_defs)

lemma createBookmark_accepted:
  assumes "shd (uuids w) \<notin> set (map b_id (bookmarks w))" and "uid \<in> set (map u_id (users w))"
  shows "\<exists>w'. createBookmark uid a b c d w = (Inr (), w')"
  using assms by (simp add: createBookmark_def io_defs)

lemma getOrCreateListByType_accepted:
  assumes "shd (uuids w) \<notin> set (map l_id (lists w))" and "ownerId \<in> set (map u_id (users w))"
  shows "\<exists>tgt w'. getOrCreateListByType ownerId ty t w = (Inr tgt, w')
      \<and> tgt \<in> set (map l_id (lists w'))
      \<and> (if filter (\<lambda>l. l_owner_id l = ownerId \<and> l_type l = ty) (lists w) \<noteq> []
          then uuids w' = uuids w else uuids w' = stl (uuids w))"
proof (cases "filter (\<lambda>l. l_owner_id l = ownerId \<and> l_type l = ty) (lists w) = []")
  case True
  from createList_accepted [OF assms, of t ty] obtain w' where
    c: "createList ownerId t ty w = (Inr (shd (uuids w)), w')" "uuids w' = stl (uuids w)" by blast
  from createList_result [OF c(1)] have "shd (uuids w) \<in> set (map l_id (lists w'))" by auto
  moreover have "getOrCreateListByType ownerId ty t w = (Inr (shd (uuids w)), w')"
    using True c(1) by (simp add: getOrCreateListByType_def order_by_desc_def)
  ultimately show ?thesis using True c(2) by simp
next
  case False
  obtain r w' where g: "getOrCreateListByType ownerId ty t w = (r, w')" by (metis surj_pair)
  have w': "w' = w" "r = Inr (l_id (hd (order_by_desc l_created_at
      (filter (\<lambda>l. l_owner_id l = ownerId \<and> l_type l = ty) (lists w)))))"
  proof -
    from False have "order_by_desc l_created_at
        (filter (\<lambda>l. l_owner_id l = ownerId \<and> l_type l = ty) (lists w)) \<noteq> []"
      by (metis mset_order_by_desc mset_zero_iff)
    then obtain y ys where "order_by_desc l_created_at
        (filter (\<lambda>l. l_owner_id l = ownerId \<and> l_type l = ty) (lists w)) = y # ys"
      by (cases "order_by_desc l_created_at
        (filter (\<lambda>l. l_owner_id l = ownerId \<and> l_type l = ty) (lists w))") auto
    with g show "w' = w" "r = Inr (l_id (hd (order_by_desc l_created_at
      (filter (\<lambda>l. l_owner_id l = ownerId \<and> l_type l = ty) (lists w)))))"
      by (simp_all add: getOrCreateListByType_def ok_def)
  qed
  from order_by_desc_hd [OF False, of l_created_at]
  have "hd (order_by_desc l_created_at
      (filter (\<lambda>l. l_owner_id l = ownerId \<and> l_type l = ty) (lists w))) \<in> set (lists w)"
    by auto
  with g w' False show ?thesis by auto
qed

lemma bookmark_item_accepted:
  assumes V: "getViewer ctx w = (Inr (Some v), w1)"
    and S: "findSourceItem sid w1 = Some source"
    and O: "si_owner_id source \<noteq> u_id v"
    and U: "v \<in> set (users w1)"
    and F: "unused (uuids w1 !! 0) w1" "unused (uuids w1 !! 1) w1" "unused (uuids w1 !! 2) w1"
  shows "\<forall>e. fst (bookmark_item ctx sid viewing w) \<noteq> Inl (DatabaseError e)"
proof -
  let ?k3 = "\<lambda>targetListId createdItemId (_::unit).
      await (if \<not> falsy viewing then buildListView (u_id v) viewing
             else buildListView (u_id v) (Some targetListId))
        (\<lambda>view. ok (buildStructuredResponse view (Some (lastBookmarkItemId sid))
                       ''Item bookmarked.''))"
  let ?k2 = "\<lambda>targetListId createdItemId.
      await (createBookmark (u_id v) (si_id source) (si_list_id source) (si_owner_id source)
               createdItemId) (?k3 targetListId createdItemId)"
  let ?k1 = "\<lambda>targetListId.
      await (addItem targetListId (si_title source) (Some (si_note source)) (Some (si_url source)))
        (?k2 targetListId)"
  let ?G = "getOrCreateListByType (u_id v) (si_list_type source) (si_list_title source)"
  have F': "unused (shd (uuids w1)) w1" "unused (shd (stl (uuids w1))) w1"
      "unused (shd (stl (stl (uuids w1)))) w1"
    using F by (simp_all add: numeral_2_eq_2)
  have body: "bookmark_item ctx sid viewing w = await ?G ?k1 w1"
    using S O by (simp add: bookmark_item_def await_simps(2) [where m = "getViewer ctx", OF V]
        viewer_id_def await_ok)
  have U1: "u_id v \<in> set (map u_id (users w1))" using U by simp
  from getOrCreateListByType_accepted [OF _ U1, of "si_list_type source" "si_list_title source"] F'(1)
  obtain tgt w2 where G: "?G w1 = (Inr tgt, w2)" and tgt: "tgt \<in> set (map l_id (lists w2))"
    and u2: "uuids w2 = uuids w1 \<or> uuids w2 = stl (uuids w1)"
    by (auto simp: unused_def split: if_splits)
  from getOrCreateListByType_result [OF G]
  have f2: "users w2 = users w1" "items w2 = items w1" "bookmarks w2 = bookmarks w1" by auto
  have "shd (uuids w2) \<notin> set (map i_id (items w2))"
    using u2 F'(1,2) f2 by (auto simp: unused_def)
  from addItem_accepted [OF this tgt] obtain w3 where
    A: "addItem tgt (si_title source) (Some (si_note source)) (Some (si_url source)) w2
          = (Inr (shd (uuids w2)), w3)" and u3: "uuids w3 = stl (uuids w2)"
    by blast
  from addItem_result [OF A]
  have f3: "users w3 = users w2" "bookmarks w3 = bookmarks w2" by auto
  have "shd (uuids w3) \<notin> set (map b_id (bookmarks w3))"
    using u2 u3 F'(2,3) f2 f3 by (auto simp: unused_def)
  moreover have "u_id v \<in> set (map u_id (users w3))" using U f2 f3 by simp
  ultimately obtain w4 where
    B: "createBookmark (u_id v) (si_id source) (si_list_id source) (si_owner_id source)
          (shd (uuids w2)) w3 = (Inr (), w4)"
    using createBookmark_accepted by blast
  have b3: "bookmark_item ctx sid viewing w = ?k3 tgt (shd (uuids w2)) () w4"
    using body G A B by (simp add: await_def)
  obtain q w5 where Q: "(if \<not> falsy viewing then buildListView (u_id v) viewing
             else buildListView (u_id v) (Some tgt)) w4 = (q, w5)" by (metis surj_pair)
  show ?thesis
  proof (cases q)
    case (Inl e)
    with Q buildListView_error obtain m where "e = Error m" by (metis (full_types))
    with Q Inl b3 show ?thesis by (simp add: await_def)
  next
    case (Inr view)
    with Q b3 show ?thesis by (simp add: await_def ok_def)
  qed
qed


lemma ensureUser_returns_row:
  assumes "ensureUser a h dn av w = (Inr r, w')"
  shows "r = getUserByAuthProviderId a w' \<or> (\<exists>i. r = getUserById i w')"
proof -
  obtain s w0 where rh: "resolveHandle a h w = (Inr s, w0)"
    using resolveHandle_frame [of a h w] by (metis surj_pair)
  show ?thesis
  proof (cases "getUserByAuthProviderId a w0")
    case None
    with assms rh show ?thesis
      by (auto simp: ensureUser_def await_def uuidv4_def ok_def split: prod.splits sum.splits)
  next
    case (Some existing)
    with assms rh show ?thesis
      by (auto simp: ensureUser_def await_def ok_def Let_def split: prod.splits sum.splits if_splits)
  qed
qed

lemma ensureUser_stored:
  assumes "ensureUser a h dn av w = (Inr (Some v), w')"
  shows "v \<in> set (users w')"
proof -
  from ensureUser_returns_row [OF assms]
  consider "getUserByAuthProviderId a w' = Some v" | i where "getUserById i w' = Some v"
    by metis
  then show ?thesis
  proof cases
    case 1
    from first_row_Some [OF 1 [unfolded getUserByAuthProviderId_def]] show ?thesis by simp
  next
    case 2
    from first_row_Some [OF 2 [unfolded getUserById_def]] show ?thesis by simp
  qed
qed

lemma getViewer_stored:
  assumes V: "getViewer ctx w = (Inr (Some v), w1)"
    and C: "\<forall>c. viewerCache w = Some c \<longrightarrow> c \<in> set (users w)"
  shows "v \<in> set (users w1)"
proof (cases "viewerCache w")
  case (Some c)
  with V have "v = c" "w1 = w" by (simp_all add: getViewer_def ok_def)
  with C Some show ?thesis by simp
next
  case None
  obtain r0 w0 where e: "ensureUser (ac_authProviderId ctx) (ac_handle ctx)
      (Some (or_null (ac_displayName ctx))) (Some (or_null (ac_avatarUrl ctx))) w = (r0, w0)"
    by (metis surj_pair)
  with V None have "r0 = Inr (Some v)" "users w1 = users w0"
    by (cases r0; auto simp: getViewer_def await_def ok_def)+
  with ensureUser_stored e show ?thesis by simp
qed

lemma getUserById_member:
  "u \<in> set (users w) \<Longrightarrow> getUserById (u_id u) w \<noteq> None"
  by (auto simp: getUserById_def first_row_None filter_empty_conv)

lemma getListSummaryById_member:
  "l \<in> set (lists w) \<Longrightarrow> u \<in> set (users w) \<Longrightarrow> u_id u = l_owner_id l \<Longrightarrow>
     getListSummaryById (l_id l) w \<noteq> None"
  by (auto simp: getListSummaryById_def first_row_None filter_empty_conv)

lemma getListsByOwner_hd:
  assumes "getListsByOwner vid w \<noteq> []"
  shows "getListSummaryById (ls_id (hd (getListsByOwner vid w))) w \<noteq> None"
proof -
  from assms have "hd (getListsByOwner vid w) \<in> set (getListsByOwner vid w)" by simp
  then obtain l u where "l \<in> set (lists w)" "u \<in> set (users w)" "u_id u = l_owner_id l"
      "hd (getListsByOwner vid w) = list_summary w l u"
    by (auto simp: getListsByOwner_def order_by_desc_def)
  then show ?thesis
    using getListSummaryById_member [of l w u] by (simp add: list_summary_def)
qed

lemma buildListView_ok:
  assumes "getUserById vid w \<noteq> None"
    and "falsy lid \<or> getListSummaryById (the lid) w \<noteq> None"
  shows "\<exists>view. buildListView vid lid w = (Inr view, w)"
proof -
  obtain viewer where vw: "getUserById vid w = Some viewer" using assms(1) by auto
  show ?thesis
  proof (cases "falsy lid \<and> getListsByOwner vid w \<noteq> []")
    case True
    with getListsByOwner_hd [of vid w] 
    obtain sel where "getListSummaryById (ls_id (hd (getListsByOwner vid w))) w = Some sel"
      by auto
    with True vw show ?thesis
      by (simp add: buildListView_def buildViewerSummary_def await_def ok_def throw_def Let_def)
  next
    case False
    show ?thesis
    proof (cases "falsy lid")
      case True
      with False vw show ?thesis
        by (simp add: buildListView_def buildViewerSummary_def await_def ok_def throw_def Let_def)
    next
      case nf: False
      with assms(2) obtain sel where "getListSummaryById (the lid) w = Some sel" by auto
      with nf vw show ?thesis
        by (simp add: buildListView_def buildViewerSummary_def await_def ok_def throw_def Let_def)
    qed
  qed
qed

lemma buildListView_not_found:
  assumes "getUserById vid w \<noteq> None" and "\<not> falsy lid"
    and "getListSummaryById (the lid) w = None"
  shows "buildListView vid lid w = (Inl (Error ''List not found.''), w)"
proof -
  obtain viewer where vw: "getUserById vid w = Some viewer" using assms(1) by auto
  with assms(2,3) show ?thesis
    by (simp add: buildListView_def buildViewerSummary_def await_def ok_def throw_def Let_def)
qed

subsection \<open>The example state, evaluated\<close>

lemma ex_getViewer_bob:
  "getViewer ex_auth_bob ex_world = (Inr (Some ex_bob), ex_world\<lparr>viewerCache := Some ex_bob\<rparr>)"
  by (simp add: io_defs store_defs server_defs ex_defs)

lemma ex_findSourceItem_dune:
  "findSourceItem ''c0000000-0000-4000-8000-000000000001'' (ex_world\<lparr>viewerCache := Some ex_bob\<rparr>)
     = Some \<lparr>si_id = ''c0000000-0000-4000-8000-000000000001'', si_title = ''Dune'', si_note = None,
         si_url = None, si_list_id = ''b0000000-0000-4000-8000-000000000001'',
         si_list_title = ''Books'', si_list_type = ''book'',
         si_owner_id = ''a0000000-0000-4000-8000-000000000001'', si_owner_handle = ''alice''\<rparr>"
  by (simp add: store_defs ex_defs)

lemma ex_bookmark_bob_ok:
  "\<exists>res. fst (bookmark_item ex_auth_bob ''c0000000-0000-4000-8000-000000000001'' None ex_world)
      = Inr res"
  by (simp add: io_defs store_defs server_defs ex_defs)


lemma ex_getViewer_alice:
  "getViewer ex_auth_alice ex_world = (Inr (Some ex_alice), ex_world\<lparr>viewerCache := Some ex_alice\<rparr>)"
  by (simp add: io_defs store_defs server_defs ex_defs)

lemma ex_findSourceItem_dune_alice:
  "findSourceItem ''c0000000-0000-4000-8000-000000000001'' (ex_world\<lparr>viewerCache := Some ex_alice\<rparr>)
     = Some \<lparr>si_id = ''c0000000-0000-4000-8000-000000000001'', si_title = ''Dune'', si_note = None,
         si_url = None, si_list_id = ''b0000000-0000-4000-8000-000000000001'',
         si_list_title = ''Books'', si_list_type = ''book'',
         si_owner_id = ''a0000000-0000-4000-8000-000000000001'', si_owner_handle = ''alice''\<rparr>"
  by (simp add: store_defs ex_defs)

lemma ex_getUser_alice: "getUserByAuthProviderId ''dev-alice'' ex_world = Some ex_alice"
  by (simp add: store_defs ex_defs)

lemma ex_resolveHandle_alice: "resolveHandle ''dev-alice'' ''alice'' ex_world = (Inr ''alice'', ex_world)"
  by (simp add: io_defs store_defs ex_defs)

lemma ex_ensureUser_renamed:
  "fst (ensureUser ''dev-alice'' ''alice'' (Some (Some ''Alice L.'')) (Some None) ex_world)
     = Inr (Some (ex_alice\<lparr>u_display_name := Some ''Alice L.''\<rparr>))"
  by (simp add: io_defs store_defs ex_defs)

lemma ex_ensureUser_same:
  "fst (ensureUser ''dev-alice'' ''alice'' (Some (Some ''alice'')) (Some None) ex_world)
     = Inr (Some ex_alice)"
  by (simp add: io_defs store_defs ex_defs)

subsection \<open>Reading the items of a list\<close>


subsection \<open>Moving an item twice\<close>

text \<open>
  Claim C6. \<open>setItemStatus\<close> is idempotent as far as the reading operations can tell:
  after a second call with the same arguments, \<open>getItemsByList\<close> (any list, any status),
  \<open>getListsByOwner\<close> (any owner) and \<open>getListSummaryById\<close> (any list), with their active
  and done counts, return what they returned after the first. (The second call does
  rewrite \<open>updated_at\<close>, a column none of these queries selects.)
\<close>

theorem setItemStatus_idempotent:
  "getItemsByList l s (snd (setItemStatus itemId listId st (snd (setItemStatus itemId listId st w))))
     = getItemsByList l s (snd (setItemStatus itemId listId st w))
   \<and> getListsByOwner ownerId
       (snd (setItemStatus itemId listId st (snd (setItemStatus itemId listId st w))))
     = getListsByOwner ownerId (snd (setItemStatus itemId listId st w))
   \<and> getListSummaryById l
       (snd (setItemStatus itemId listId st (snd (setItemStatus itemId listId st w))))
     = getListSummaryById l (snd (setItemStatus itemId listId st w))"
proof -
  let ?w1 = "snd (setItemStatus itemId listId st w)"
  let ?w2 = "snd (setItemStatus itemId listId st ?w1)"
  have cols: "map item_columns (items ?w2) = map item_columns (items ?w1)"
    by (simp add: setItemStatus_world comp_def item_columns_def)
  have ls: "lists ?w2 = lists ?w1" and us: "users ?w2 = users ?w1"
    by (simp_all add: setItemStatus_world)
  show ?thesis
    using reads_columns [OF cols ls us] by simp
qed


subsection \<open>The random suffix\<close>






lemma round_half_even_cases: "round_half_even t = \<lfloor>t\<rfloor> \<or> round_half_even t = \<lceil>t\<rceil>"
  by (simp add: round_half_even_def)

lemma round_half_even_le: "t \<le> of_int k \<Longrightarrow> round_half_even t \<le> k"
  using round_half_even_cases [of t] by (auto simp: ceiling_le_iff floor_le_iff)

lemma round_half_even_ge: "of_int k \<le> t \<Longrightarrow> k \<le> round_half_even t"
  using round_half_even_cases [of t] by (auto simp: le_floor_iff le_ceiling_iff)



lemma ulp_pos: "0 < ulp x"
  by (simp add: ulp_def zero_less_power_int)

lemma to_double_le:
  assumes "x \<le> of_int k * ulp x"
  shows "to_double x \<le> of_int k * ulp x"
proof -
  from assms ulp_pos [of x] have "x / ulp x \<le> of_int k"
    by (simp add: pos_divide_le_eq)
  then have "round_half_even (x / ulp x) \<le> k" by (rule round_half_even_le)
  then have "real_of_int (round_half_even (x / ulp x)) \<le> of_int k" by simp
  with ulp_pos [of x] show ?thesis
    unfolding to_double_def by (intro mult_right_mono) simp_all
qed

lemma to_double_ge:
  assumes "of_int k * ulp x \<le> x"
  shows "of_int k * ulp x \<le> to_double x"
proof -
  from assms ulp_pos [of x] have "of_int k \<le> x / ulp x"
    by (simp add: pos_le_divide_eq)
  then have "k \<le> round_half_even (x / ulp x)" by (rule round_half_even_ge)
  then have "real_of_int k \<le> of_int (round_half_even (x / ulp x))" by simp
  with ulp_pos [of x] show ?thesis
    unfolding to_double_def by (intro mult_right_mono) simp_all
qed

lemma exponent_less: "x < 2 ^ Suc n \<Longrightarrow> exponent x \<le> int n"
proof (cases "1 \<le> x")
  case True
  assume "x < 2 ^ Suc n"
  then have "\<lfloor>x\<rfloor> < 2 ^ Suc n" by (simp add: floor_less_iff)
  then have "bitlen \<lfloor>x\<rfloor> \<le> int (Suc n)"
    unfolding bitlen_le_iff_power by (simp only: nat_int of_nat_0_le_iff simp_thms)
  with True show ?thesis by (simp add: exponent_def)
next
  case False
  then show ?thesis by (simp add: exponent_def)
qed


lemma grid_multiple:
  assumes "j \<le> - 39"
  shows "\<exists>k. real_of_int c / 2 ^ 39 = of_int k * 2 powi j"
proof -
  define n where "n = nat (- 39 - j)"
  have j: "j = - int (39 + n)" using assms by (simp add: n_def)
  have "(2::real) powi j = inverse (2 ^ (39 + n))"
    unfolding j by (simp only: power_int_minus power_int_of_nat)
  then have "of_int (c * 2 ^ n) * (2::real) powi j = real_of_int c / 2 ^ 39"
    by (simp add: power_add field_simps)
  then show ?thesis by metis
qed



lemma to_double_representable:
  assumes "x = real_of_int c / 2 ^ 39" and "x < 2 ^ 14"
  shows "to_double x = x"
proof -
  have "exponent x - 52 \<le> - 39" using exponent_less [of x 13] assms(2) by simp
  from grid_multiple [OF this, of c] obtain k where k: "x = of_int k * ulp x"
    by (auto simp: assms(1) ulp_def)
  from to_double_le [of x k] to_double_ge [of k x] k show ?thesis by simp
qed



lemma ex_to_double: "to_double 4500 = 4500" "to_double 5500 = 5500"
proof -
  show "to_double 4500 = 4500"
    by (rule to_double_representable [of _ "4500 * 2 ^ 39"]) simp_all
  show "to_double 5500 = 5500"
    by (rule to_double_representable [of _ "5500 * 2 ^ 39"]) simp_all
qed

lemma ex_suffix: "\<lfloor>double_add (double_mul (1 / 2) 9000) 1000\<rfloor> = 5500"
  by (simp add: double_add_def double_mul_def ex_to_double)

lemma ex_suffix_string: "number_to_string 5500 = ''5500''"
  by code_simp


subsection \<open>Refreshing an existing user\<close>

lemma apply_user_set_changes:
  "u\<lparr>u_display_name := d\<rparr> = u \<longleftrightarrow> d = u_display_name u"
  "u\<lparr>u_avatar_url := x\<rparr> = u \<longleftrightarrow> x = u_avatar_url u"
  "u\<lparr>u_handle := h\<rparr> = u \<longleftrightarrow> h = u_handle u"
  by (cases u; auto)+

lemma apply_user_set_auth:
  "u_auth_provider_id (fold apply_user_set cs u) = u_auth_provider_id u"
proof (induction cs arbitrary: u)
  case Nil
  then show ?case by simp
next
  case (Cons c cs)
  then show ?case by (cases c) simp_all
qed

lemma first_row_filter_map:
  assumes "\<And>x. P (f x) = P x"
  shows "first_row (filter P (map f xs)) = map_option f (first_row (filter P xs))"
  using assms by (induction xs) (simp_all add: first_row_def)

lemma query_write_UpdateUser:
  assumes "query_write (UpdateUser cs uid) w = (q, w')"
  shows "(\<exists>e. q = Inl (DatabaseError e)) \<or>
     (q = Inr () \<and> writes w' = writes w @ [UpdateUser cs uid]
      \<and> users w' = map (\<lambda>u. if u_id u = uid then fold apply_user_set cs u else u) (users w))"
  using assms by (auto simp: query_write_def Let_def split: if_splits)

text \<open>
  \<open>ensureUser\<close> is called for an \<open>authProviderId\<close> that has a user row \<open>existing\<close>;
  \<open>safeHandle\<close> is the handle \<open>resolveHandle\<close> returns, and no \<^verbatim>\<open>query\<close> of the call
  throws. Among the supplied display name, the supplied avatar URL and the resolved
  handle, \<open>changed\<close> keeps the clauses that differ from the stored row. Then the call
  issues no statement when \<open>changed\<close> is empty, and otherwise exactly one
  \<^verbatim>\<open>update users\<close> whose \<^verbatim>\<open>set\<close> list is \<open>changed\<close>; it returns the row now stored for
  \<open>authProviderId\<close>, which is \<open>existing\<close> with the changed fields overwritten.
\<close>

lemma ensureUser_existing_user:
  assumes E: "getUserByAuthProviderId a w = Some existing"
    and H: "resolveHandle a h w = (Inr safeHandle, w0)"
    and R: "ensureUser a h dn av w = (r, w')"
    and NDB: "\<forall>e. r \<noteq> Inl (DatabaseError e)"
  shows "let changed = filter (\<lambda>c. apply_user_set c existing \<noteq> existing)
                 ((case dn of Some d \<Rightarrow> [SetDisplayName d] | None \<Rightarrow> []) @
                  (case av of Some x \<Rightarrow> [SetAvatarUrl x] | None \<Rightarrow> []) @
                  [SetHandle safeHandle])
         in writes w' = writes w @ (if changed = [] then [] else [UpdateUser changed (u_id existing)])
          \<and> (dn = Some (u_display_name existing) \<and> av = Some (u_avatar_url existing)
               \<and> safeHandle = u_handle existing \<longrightarrow> writes w' = writes w \<and> users w' = users w)
          \<and> r = Inr (getUserByAuthProviderId a w')
          \<and> getUserByAuthProviderId a w' = Some (fold apply_user_set changed existing)"
proof -
  define changed where "changed = filter (\<lambda>c. apply_user_set c existing \<noteq> existing)
                 ((case dn of Some d \<Rightarrow> [SetDisplayName d] | None \<Rightarrow> []) @
                  (case av of Some x \<Rightarrow> [SetAvatarUrl x] | None \<Rightarrow> []) @
                  [SetHandle safeHandle])"
  have ch: "changed =
        (case dn of Some d \<Rightarrow> if d \<noteq> u_display_name existing then [SetDisplayName d] else []
         | None \<Rightarrow> []) @
        (case av of Some x \<Rightarrow> if x \<noteq> u_avatar_url existing then [SetAvatarUrl x] else []
         | None \<Rightarrow> []) @
        (if safeHandle \<noteq> u_handle existing then [SetHandle safeHandle] else [])"
    by (simp add: changed_def apply_user_set_changes split: option.splits)
  note f0 = resolveHandle_frame [OF H]
  have E0: "getUserByAuthProviderId a w0 = Some existing"
    using E f0 by (simp add: getUserByAuthProviderId_def)
  have same: "dn = Some (u_display_name existing) \<and> av = Some (u_avatar_url existing)
               \<and> safeHandle = u_handle existing \<longrightarrow> changed = []"
    by (auto simp: ch)
  have main: "writes w' = writes w @ (if changed = [] then [] else [UpdateUser changed (u_id existing)])
          \<and> (changed = [] \<longrightarrow> users w' = users w)
          \<and> r = Inr (getUserByAuthProviderId a w')
          \<and> getUserByAuthProviderId a w' = Some (fold apply_user_set changed existing)"
  proof (cases "changed = []")
    case True
    then have "r = Inr (getUserByAuthProviderId a w0)" "w' = w0"
      using R H E0 by (auto simp: ensureUser_def await_def ok_def Let_def ch [symmetric])
    with True E0 f0 show ?thesis by simp
  next
    case False
    obtain q w2 where Q: "query_write (UpdateUser changed (u_id existing)) w0 = (q, w2)"
      by (metis surj_pair)
    have step: "ensureUser a h dn av w =
        await (query_write (UpdateUser changed (u_id existing)))
          (\<lambda>_ w'. ok (getUserByAuthProviderId a w') w') w0"
      using H E0 False by (simp add: ensureUser_def await_def Let_def ch [symmetric])
    have "q = Inr ()"
    proof (cases q)
      case (Inl e)
      with query_write_UpdateUser [OF Q] obtain p where "e = DatabaseError p" by auto
      moreover have "r = Inl e" using R step Q Inl by (simp add: await_def)
      ultimately show ?thesis using NDB by simp
    qed simp
    with query_write_UpdateUser [OF Q]
    have w2: "writes w2 = writes w0 @ [UpdateUser changed (u_id existing)]"
        "users w2 = map (\<lambda>u. if u_id u = u_id existing then fold apply_user_set changed u else u)
            (users w0)"
      by auto
    have rw: "r = Inr (getUserByAuthProviderId a w2)" "w' = w2"
      using R step Q \<open>q = Inr ()\<close> by (auto simp: await_def ok_def)
    have "getUserByAuthProviderId a w2 = map_option
        (\<lambda>u. if u_id u = u_id existing then fold apply_user_set changed u else u)
        (getUserByAuthProviderId a w0)"
      unfolding getUserByAuthProviderId_def w2(2)
      by (rule first_row_filter_map) (simp add: apply_user_set_auth)
    then have "getUserByAuthProviderId a w2 = Some (fold apply_user_set changed existing)"
      by (simp add: E0)
    with False rw w2 f0 show ?thesis by simp
  qed
  from main same show ?thesis
    unfolding Let_def changed_def [symmetric] by auto
qed

lemma ensureUser_existing_user_example:
  "getUserByAuthProviderId ''dev-alice'' ex_world = Some ex_alice
   \<and> resolveHandle ''dev-alice'' ''alice'' ex_world = (Inr ''alice'', ex_world)
   \<and> fst (ensureUser ''dev-alice'' ''alice'' (Some (Some ''Alice L.'')) (Some None) ex_world)
       = Inr (Some (ex_alice\<lparr>u_display_name := Some ''Alice L.''\<rparr>))
   \<and> writes (snd (ensureUser ''dev-alice'' ''alice'' (Some (Some ''Alice L.'')) (Some None) ex_world))
       = [UpdateUser [SetDisplayName (Some ''Alice L.'')] (u_id ex_alice)]
   \<and> fst (ensureUser ''dev-alice'' ''alice'' (Some (Some ''alice'')) (Some None) ex_world)
       = Inr (Some ex_alice)
   \<and> writes (snd (ensureUser ''dev-alice'' ''alice'' (Some (Some ''alice'')) (Some None) ex_world))
       = []"
proof -
  let ?a = "ensureUser ''dev-alice'' ''alice'' (Some (Some ''Alice L.'')) (Some None) ex_world"
  let ?b = "ensureUser ''dev-alice'' ''alice'' (Some (Some ''alice'')) (Some None) ex_world"
  have Ra: "?a = (fst ?a, snd ?a)" and Rb: "?b = (fst ?b, snd ?b)" by simp_all
  have Na: "\<forall>e. fst ?a \<noteq> Inl (DatabaseError e)" by (simp add: ex_ensureUser_renamed)
  have Nb: "\<forall>e. fst ?b \<noteq> Inl (DatabaseError e)" by (simp add: ex_ensureUser_same)
  have w0: "writes ex_world = []" by (simp add: ex_world_def)
  have d: "u_display_name ex_alice = Some ''alice''" "u_avatar_url ex_alice = None"
      "u_handle ex_alice = ''alice''"
    by (simp_all add: ex_alice_def)
  from ensureUser_existing_user [OF ex_getUser_alice ex_resolveHandle_alice Ra Na]
  have a: "writes (snd ?a) = [UpdateUser [SetDisplayName (Some ''Alice L.'')] (u_id ex_alice)]"
    by (simp add: Let_def w0 d apply_user_set_changes)
  from ensureUser_existing_user [OF ex_getUser_alice ex_resolveHandle_alice Rb Nb]
  have b: "writes (snd ?b) = []"
    by (simp add: Let_def w0 d apply_user_set_changes)
  from a b ex_getUser_alice ex_resolveHandle_alice ex_ensureUser_renamed ex_ensureUser_same
  show ?thesis by simp
qed


subsection \<open>Handle resolution\<close>





subsection \<open>Refreshing a user whose suffixed handle is taken\<close>

text \<open>
  Claim C5. bob has a user row; his candidate handle is now "alice", which is alice's,
  and the suffixed handle \<open>resolveHandle\<close> draws, "alice_5500", is dave's. \<open>ensureUser\<close>
  issues the update of bob's handle, the database rejects it as a duplicate, and the
  call throws: no refreshed record is returned. \<open>resolveHandle\<close> never checks that the
  handle it builds is free.
\<close>

theorem ensureUser_suffix_collision:
  "getUserByAuthProviderId ''dev-bob'' ex_world_taken = Some ex_bob
   \<and> fst (resolveHandle ''dev-bob'' ''alice'' ex_world_taken) = Inr ''alice_5500''
   \<and> map u_handle (users ex_world_taken) = [''alice'', ''bob'', ''alice_5500'']
   \<and> fst (ensureUser ''dev-bob'' ''alice'' (Some (Some ''bob'')) (Some None) ex_world_taken)
       = Inl (DatabaseError unique_violation)
   \<and> writes (snd (ensureUser ''dev-bob'' ''alice'' (Some (Some ''bob'')) (Some None) ex_world_taken))
       = [UpdateUser [SetHandle ''alice_5500''] (u_id ex_bob)]
   \<and> users (snd (ensureUser ''dev-bob'' ''alice'' (Some (Some ''bob'')) (Some None) ex_world_taken))
       = users ex_world_taken"
  by (simp add: io_defs store_defs ex_defs ex_to_double ex_suffix_string)

subsection \<open>Mutations by someone who does not own the list\<close>





subsection \<open>Bookmarking one's own item\<close>

text \<open>
  Claim C3, as the code has it. When the source item's list is owned by the viewer,
  \<open>bookmark_item\<close> leaves the state as viewer resolution left it: no item, no bookmark
  and no list is created. It answers "That item is already yours." together with the
  view \<open>buildListView\<close> builds for \<open>viewing_list_id ?? source.list_id\<close> whenever
  \<open>viewing_list_id\<close> is absent, empty, or names a list the summary query finds; for any
  other \<open>viewing_list_id\<close> it throws "List not found." instead.
\<close>

theorem bookmark_own_item_noop:
  assumes V: "getViewer ctx w = (Inr (Some v), w1)"
    and S: "findSourceItem sid w1 = Some source"
    and O: "si_owner_id source = u_id v"
  shows "snd (bookmark_item ctx sid viewing w) = w1
     \<and> lists w1 = lists w \<and> items w1 = items w \<and> bookmarks w1 = bookmarks w
     \<and> (\<exists>ws. writes w1 = writes w @ ws \<and> length ws \<le> 1 \<and> list_all users_stmt ws)
     \<and> (if (case viewing of None \<Rightarrow> True
              | Some lid \<Rightarrow> lid = [] \<or> getListSummaryById lid w1 \<noteq> None)
         then \<exists>view.
                buildListView (u_id v)
                  (Some (case viewing of None \<Rightarrow> si_list_id source | Some l \<Rightarrow> l)) w1
                  = (Inr view, w1)
                \<and> fst (bookmark_item ctx sid viewing w)
                  = Inr \<lparr>r_message = ''That item is already yours.'', r_view = view,
                         r_effects = Some (lastBookmarkItemId sid)\<rparr>
         else fst (bookmark_item ctx sid viewing w) = Inl (Error ''List not found.''))"
proof -
  let ?lid = "Some (case viewing of None \<Rightarrow> si_list_id source | Some l \<Rightarrow> l)"
  let ?ok = "case viewing of None \<Rightarrow> True | Some lid \<Rightarrow> lid = [] \<or> getListSummaryById lid w1 \<noteq> None"
  note fr = getViewer_frame [OF V]
  from findSourceItem_Some [OF S] obtain l u where
    lu: "l \<in> set (lists w1)" "u \<in> set (users w1)" "u_id u = l_owner_id l"
      "si_list_id source = l_id l" "si_owner_id source = u_id u"
    by auto
  have viewer: "getUserById (u_id v) w1 \<noteq> None"
    using getUserById_member [OF lu(2)] lu(5) O by simp
  have src: "getListSummaryById (si_list_id source) w1 \<noteq> None"
    using getListSummaryById_member [OF lu(1,2,3)] lu(4) by simp
  have body: "bookmark_item ctx sid viewing w =
      await (buildListView (u_id v) ?lid)
        (\<lambda>view. ok (buildStructuredResponse view (Some (lastBookmarkItemId sid))
                       ''That item is already yours.'')) w1"
    using S O by (simp add: bookmark_item_def await_simps(2) [where m = "getViewer ctx", OF V]
        viewer_id_def await_ok)
  have st: "snd (bookmark_item ctx sid viewing w) = w1"
    unfolding body by (rule await_pure_state) (rule buildListView_state)
  have res: "if ?ok
         then \<exists>view. buildListView (u_id v) ?lid w1 = (Inr view, w1)
                \<and> fst (bookmark_item ctx sid viewing w)
                  = Inr \<lparr>r_message = ''That item is already yours.'', r_view = view,
                         r_effects = Some (lastBookmarkItemId sid)\<rparr>
         else fst (bookmark_item ctx sid viewing w) = Inl (Error ''List not found.'')"
  proof (cases ?ok)
    case True
    then have "falsy ?lid \<or> getListSummaryById (the ?lid) w1 \<noteq> None"
      using src by (cases viewing) (auto simp: falsy_def)
    from buildListView_ok [OF viewer this] obtain view where
      "buildListView (u_id v) ?lid w1 = (Inr view, w1)" by blast
    with True show ?thesis
      by (simp add: body await_def ok_def buildStructuredResponse_def)
  next
    case False
    then have "\<not> falsy ?lid" "getListSummaryById (the ?lid) w1 = None"
      by (cases viewing; simp add: falsy_def)+
    from buildListView_not_found [OF viewer this] False show ?thesis
      by (simp add: body await_def)
  qed
  from st fr res show ?thesis by simp
qed

theorem bookmark_own_item_noop_witness:
  "getViewer ex_auth_alice ex_world = (Inr (Some ex_alice), ex_world\<lparr>viewerCache := Some ex_alice\<rparr>)
   \<and> findSourceItem ''c0000000-0000-4000-8000-000000000001''
        (ex_world\<lparr>viewerCache := Some ex_alice\<rparr>)
     = Some \<lparr>si_id = ''c0000000-0000-4000-8000-000000000001'', si_title = ''Dune'', si_note = None,
         si_url = None, si_list_id = ''b0000000-0000-4000-8000-000000000001'',
         si_list_title = ''Books'', si_list_type = ''book'',
         si_owner_id = ''a0000000-0000-4000-8000-000000000001'', si_owner_handle = ''alice''\<rparr>
   \<and> ''a0000000-0000-4000-8000-000000000001'' = u_id ex_alice
   \<and> snd (bookmark_item ex_auth_alice ''c0000000-0000-4000-8000-000000000001'' None ex_world)
     = ex_world\<lparr>viewerCache := Some ex_alice\<rparr>
   \<and> (\<exists>view. fst (bookmark_item ex_auth_alice ''c0000000-0000-4000-8000-000000000001'' None ex_world)
         = Inr \<lparr>r_message = ''That item is already yours.'', r_view = view,
                r_effects = Some (lastBookmarkItemId ''c0000000-0000-4000-8000-000000000001'')\<rparr>)
   \<and> fst (bookmark_item ex_auth_alice ''c0000000-0000-4000-8000-000000000001''
            (Some ''b0000000-0000-4000-8000-00000000ffff'') ex_world)
     = Inl (Error ''List not found.'')"
proof -
  have O: "si_owner_id \<lparr>si_id = ''c0000000-0000-4000-8000-000000000001'', si_title = ''Dune'',
         si_note = None, si_url = None, si_list_id = ''b0000000-0000-4000-8000-000000000001'',
         si_list_title = ''Books'', si_list_type = ''book'',
         si_owner_id = ''a0000000-0000-4000-8000-000000000001'', si_owner_handle = ''alice''\<rparr>
       = u_id ex_alice"
    by (simp add: ex_alice_def)
  have nf: "getListSummaryById ''b0000000-0000-4000-8000-00000000ffff''
      (ex_world\<lparr>viewerCache := Some ex_alice\<rparr>) = None"
    by (simp add: store_defs ex_defs)
  from bookmark_own_item_noop [OF ex_getViewer_alice ex_findSourceItem_dune_alice O, of None]
    bookmark_own_item_noop [OF ex_getViewer_alice ex_findSourceItem_dune_alice O,
      of "Some ''b0000000-0000-4000-8000-00000000ffff''"]
    ex_getViewer_alice ex_findSourceItem_dune_alice O nf
  show ?thesis by (simp add: ex_alice_def) blast
qed

text \<open>
  The claim as stated fails when \<open>viewing_list_id\<close> names no list: alice bookmarks her
  own item "Dune" while the client reports a list that does not exist.
\<close>

theorem bookmark_own_item_counterexample:
  "findSourceItem ''c0000000-0000-4000-8000-000000000001'' ex_world \<noteq> None
   \<and> fst (bookmark_item ex_auth_alice ''c0000000-0000-4000-8000-000000000001''
            (Some ''b0000000-0000-4000-8000-00000000ffff'') ex_world)
       = Inl (Error ''List not found.'')"
  by (simp add: io_defs store_defs server_defs ex_defs)

subsection \<open>Bookmarking somebody else's item\<close>

lemma bookmark_item_copies_if_accepted:
  assumes V: "getViewer ctx w = (Inr (Some v), w1)"
    and S: "findSourceItem sid w1 = Some source"
    and O: "si_owner_id source \<noteq> u_id v"
    and R: "bookmark_item ctx sid viewing w = (r, w')"
    and NDB: "\<forall>e. r \<noteq> Inl (DatabaseError e)"
  shows "\<exists>dest copy bm.
      dest \<in> set (lists w') \<and> l_owner_id dest = u_id v \<and> l_type dest = si_list_type source
      \<and> (if filter (\<lambda>l. l_owner_id l = u_id v \<and> l_type l = si_list_type source) (lists w) \<noteq> []
          then lists w' = lists w \<and> dest \<in> set (lists w)
               \<and> (\<forall>l \<in> set (lists w). l_owner_id l = u_id v \<and> l_type l = si_list_type source
                      \<longrightarrow> l_created_at l \<le> l_created_at dest)
          else lists w' = lists w @ [dest] \<and> l_title dest = si_list_title source)
      \<and> length (filter (\<lambda>l. l_owner_id l = u_id v \<and> l_type l = si_list_type source) (lists w'))
          \<le> length (filter (\<lambda>l. l_owner_id l = u_id v \<and> l_type l = si_list_type source) (lists w)) + 1
      \<and> items w' = items w @ [copy] \<and> i_list_id copy = l_id dest
      \<and> i_title copy = si_title source \<and> i_note copy = si_note source \<and> i_url copy = si_url source
      \<and> length (filter (\<lambda>i. i_list_id i = l_id dest) (items w'))
          = length (filter (\<lambda>i. i_list_id i = l_id dest) (items w)) + 1
      \<and> bookmarks w' = bookmarks w @ [bm]
      \<and> b_user_id bm = u_id v \<and> b_source_item_id bm = sid
      \<and> b_source_list_id bm = si_list_id source \<and> b_source_user_id bm = si_owner_id source
      \<and> b_created_item_id bm = i_id copy"
proof -
  let ?P = "\<lambda>l. l_owner_id l = u_id v \<and> l_type l = si_list_type source"
  from bookmark_item_effect [OF V S O R NDB]
  obtain tgt w2 copy bm where
    G: "getOrCreateListByType (u_id v) (si_list_type source) (si_list_title source) w1
          = (Inr tgt, w2)"
    and E: "lists w' = lists w2" "items w' = items w1 @ [copy]" "bookmarks w' = bookmarks w1 @ [bm]"
      "i_list_id copy = tgt" "i_title copy = si_title source" "i_note copy = si_note source"
      "i_url copy = si_url source"
      "b_user_id bm = u_id v" "b_source_item_id bm = si_id source"
      "b_source_list_id bm = si_list_id source" "b_source_user_id bm = si_owner_id source"
      "b_created_item_id bm = i_id copy"
    by blast
  note fr = getViewer_frame [OF V]
  have sid: "si_id source = sid"
    using findSourceItem_Some [OF S] by blast
  show ?thesis
  proof (cases "filter ?P (lists w) = []")
    case True
    define dest where "dest = \<lparr>l_id = shd (uuids w1), l_owner_id = u_id v,
        l_title = si_list_title source, l_type = si_list_type source, l_visibility = ''public'',
        l_created_at = shd (clock w1), l_updated_at = shd (clock w1)\<rparr>"
    from getOrCreateListByType_result [OF G] True fr
    have g: "tgt = l_id dest" "lists w2 = lists w @ [dest]"
      by (simp_all add: dest_def)
    have d: "l_owner_id dest = u_id v" "l_type dest = si_list_type source"
        "l_title dest = si_list_title source"
      by (simp_all add: dest_def)
    show ?thesis
      by (intro exI [of _ dest] exI [of _ copy] exI [of _ bm])
        (use True E g d fr sid in simp)
  next
    case False
    define dest where "dest = hd (order_by_desc l_created_at (filter ?P (lists w)))"
    from getOrCreateListByType_result [OF G] False fr
    have g: "tgt = l_id dest" "lists w2 = lists w"
      by (simp_all add: dest_def)
    from order_by_desc_hd [OF False, of l_created_at]
    have d: "dest \<in> set (lists w)" "l_owner_id dest = u_id v" "l_type dest = si_list_type source"
        "\<forall>l \<in> set (lists w). ?P l \<longrightarrow> l_created_at l \<le> l_created_at dest"
      by (auto simp: dest_def)
    show ?thesis
      by (intro exI [of _ dest] exI [of _ copy] exI [of _ bm])
        (use False E g d fr sid in simp)
  qed
qed

text \<open>
  Claim C2. The viewer \<open>v\<close>, resolved in state \<open>w1\<close>, bookmarks an item of a list owned
  by somebody else. A viewer held by the server instance is a stored user, and the next
  three identifiers \<^verbatim>\<open>uuidv4()\<close> returns are not in use. Then the database rejects no
  statement of the call, and there are a destination list \<open>dest\<close> of the viewer with the
  source list's type, a new item \<open>copy\<close> and a new bookmark \<open>bm\<close> such that: if the viewer
  had lists of that type, no list is created and \<open>dest\<close> is one of them, created no
  earlier than any other; if not, \<open>dest\<close> is the one list added, titled as the source
  list; so the number of the viewer's lists of that type grows by at most one. \<open>copy\<close>
  is the one item added, it lies in \<open>dest\<close> (whose item count grows by exactly one) and
  carries the source's title, note and url. \<open>bm\<close> is the one bookmark added; it
  references the viewer, the source item, the source list, the source owner and \<open>copy\<close>.
\<close>

theorem bookmark_item_copies:
  assumes V: "getViewer ctx w = (Inr (Some v), w1)"
    and S: "findSourceItem sid w1 = Some source"
    and O: "si_owner_id source \<noteq> u_id v"
    and C: "\<forall>c. viewerCache w = Some c \<longrightarrow> c \<in> set (users w)"
    and F: "unused (uuids w1 !! 0) w1" "unused (uuids w1 !! 1) w1" "unused (uuids w1 !! 2) w1"
    and R: "bookmark_item ctx sid viewing w = (r, w')"
  shows "(\<forall>e. r \<noteq> Inl (DatabaseError e))
    \<and> (\<exists>dest copy bm.
      dest \<in> set (lists w') \<and> l_owner_id dest = u_id v \<and> l_type dest = si_list_type source
      \<and> (if filter (\<lambda>l. l_owner_id l = u_id v \<and> l_type l = si_list_type source) (lists w) \<noteq> []
          then lists w' = lists w \<and> dest \<in> set (lists w)
               \<and> (\<forall>l \<in> set (lists w). l_owner_id l = u_id v \<and> l_type l = si_list_type source
                      \<longrightarrow> l_created_at l \<le> l_created_at dest)
          else lists w' = lists w @ [dest] \<and> l_title dest = si_list_title source)
      \<and> length (filter (\<lambda>l. l_owner_id l = u_id v \<and> l_type l = si_list_type source) (lists w'))
          \<le> length (filter (\<lambda>l. l_owner_id l = u_id v \<and> l_type l = si_list_type source) (lists w)) + 1
      \<and> items w' = items w @ [copy] \<and> i_list_id copy = l_id dest
      \<and> i_title copy = si_title source \<and> i_note copy = si_note source \<and> i_url copy = si_url source
      \<and> length (filter (\<lambda>i. i_list_id i = l_id dest) (items w'))
          = length (filter (\<lambda>i. i_list_id i = l_id dest) (items w)) + 1
      \<and> bookmarks w' = bookmarks w @ [bm]
      \<and> b_user_id bm = u_id v \<and> b_source_item_id bm = sid
      \<and> b_source_list_id bm = si_list_id source \<and> b_source_user_id bm = si_owner_id source
      \<and> b_created_item_id bm = i_id copy)"
proof -
  have U: "v \<in> set (users w1)"
    using getViewer_stored [OF V C] .
  have NDB: "\<forall>e. r \<noteq> Inl (DatabaseError e)"
    using bookmark_item_accepted [OF V S O U F, of viewing] R by simp
  with bookmark_item_copies_if_accepted [OF V S O R NDB] show ?thesis by simp
qed

theorem bookmark_item_copies_witness:
  "getViewer ex_auth_bob ex_world = (Inr (Some ex_bob), ex_world\<lparr>viewerCache := Some ex_bob\<rparr>)
   \<and> findSourceItem ''c0000000-0000-4000-8000-000000000001'' (ex_world\<lparr>viewerCache := Some ex_bob\<rparr>)
     = Some \<lparr>si_id = ''c0000000-0000-4000-8000-000000000001'', si_title = ''Dune'', si_note = None,
         si_url = None, si_list_id = ''b0000000-0000-4000-8000-000000000001'',
         si_list_title = ''Books'', si_list_type = ''book'',
         si_owner_id = ''a0000000-0000-4000-8000-000000000001'', si_owner_handle = ''alice''\<rparr>
   \<and> ''a0000000-0000-4000-8000-000000000001'' \<noteq> u_id ex_bob
   \<and> viewerCache ex_world = None
   \<and> unused (uuids (ex_world\<lparr>viewerCache := Some ex_bob\<rparr>) !! 0) (ex_world\<lparr>viewerCache := Some ex_bob\<rparr>)
   \<and> unused (uuids (ex_world\<lparr>viewerCache := Some ex_bob\<rparr>) !! 1) (ex_world\<lparr>viewerCache := Some ex_bob\<rparr>)
   \<and> unused (uuids (ex_world\<lparr>viewerCache := Some ex_bob\<rparr>) !! 2) (ex_world\<lparr>viewerCache := Some ex_bob\<rparr>)
   \<and> (\<exists>dest copy bm.
         lists (snd (bookmark_item ex_auth_bob ''c0000000-0000-4000-8000-000000000001'' None ex_world))
           = lists ex_world @ [dest]
         \<and> l_owner_id dest = u_id ex_bob \<and> l_type dest = ''book'' \<and> l_title dest = ''Books''
         \<and> items (snd (bookmark_item ex_auth_bob ''c0000000-0000-4000-8000-000000000001'' None ex_world))
           = items ex_world @ [copy]
         \<and> i_list_id copy = l_id dest \<and> i_title copy = ''Dune''
         \<and> bookmarks (snd (bookmark_item ex_auth_bob ''c0000000-0000-4000-8000-000000000001'' None
              ex_world)) = bookmarks ex_world @ [bm]
         \<and> b_user_id bm = u_id ex_bob
         \<and> b_source_item_id bm = ''c0000000-0000-4000-8000-000000000001''
         \<and> b_source_list_id bm = ''b0000000-0000-4000-8000-000000000001''
         \<and> b_source_user_id bm = ''a0000000-0000-4000-8000-000000000001''
         \<and> b_created_item_id bm = i_id copy)"
proof -
  let ?sid = "''c0000000-0000-4000-8000-000000000001''"
  let ?r = "bookmark_item ex_auth_bob ?sid None ex_world"
  have O: "si_owner_id \<lparr>si_id = ''c0000000-0000-4000-8000-000000000001'', si_title = ''Dune'',
         si_note = None, si_url = None, si_list_id = ''b0000000-0000-4000-8000-000000000001'',
         si_list_title = ''Books'', si_list_type = ''book'',
         si_owner_id = ''a0000000-0000-4000-8000-000000000001'', si_owner_handle = ''alice''\<rparr>
       \<noteq> u_id ex_bob"
    by (simp add: ex_bob_def)
  have R: "?r = (fst ?r, snd ?r)" by simp
  have C: "\<forall>c. viewerCache ex_world = Some c \<longrightarrow> c \<in> set (users ex_world)"
    by (simp add: ex_world_def)
  have c: "viewerCache ex_world = None"
    by (simp add: ex_world_def)
  have F: "unused (uuids (ex_world\<lparr>viewerCache := Some ex_bob\<rparr>) !! 0) (ex_world\<lparr>viewerCache := Some ex_bob\<rparr>)"
      "unused (uuids (ex_world\<lparr>viewerCache := Some ex_bob\<rparr>) !! 1) (ex_world\<lparr>viewerCache := Some ex_bob\<rparr>)"
      "unused (uuids (ex_world\<lparr>viewerCache := Some ex_bob\<rparr>) !! 2) (ex_world\<lparr>viewerCache := Some ex_bob\<rparr>)"
    by (simp_all add: unused_def ex_defs numeral_2_eq_2)
  have none: "filter (\<lambda>l. l_owner_id l = u_id ex_bob \<and> l_type l = ''book'') (lists ex_world) = []"
    by (simp add: ex_defs)
  from bookmark_item_copies [OF ex_getViewer_bob ex_findSourceItem_dune O C F R]
  obtain dest copy bm where
    "lists (snd ?r) = lists ex_world @ [dest]" "l_owner_id dest = u_id ex_bob"
    "l_type dest = ''book''" "l_title dest = ''Books''"
    "items (snd ?r) = items ex_world @ [copy]" "i_list_id copy = l_id dest" "i_title copy = ''Dune''"
    "bookmarks (snd ?r) = bookmarks ex_world @ [bm]" "b_user_id bm = u_id ex_bob"
    "b_source_item_id bm = ?sid" "b_source_list_id bm = ''b0000000-0000-4000-8000-000000000001''"
    "b_source_user_id bm = ''a0000000-0000-4000-8000-000000000001''"
    "b_created_item_id bm = i_id copy"
    by (simp add: none) blast
  then have "\<exists>dest copy bm.
         lists (snd ?r) = lists ex_world @ [dest]
         \<and> l_owner_id dest = u_id ex_bob \<and> l_type dest = ''book'' \<and> l_title dest = ''Books''
         \<and> items (snd ?r) = items ex_world @ [copy]
         \<and> i_list_id copy = l_id dest \<and> i_title copy = ''Dune''
         \<and> bookmarks (snd ?r) = bookmarks ex_world @ [bm]
         \<and> b_user_id bm = u_id ex_bob
         \<and> b_source_item_id bm = ?sid
         \<and> b_source_list_id bm = ''b0000000-0000-4000-8000-000000000001''
         \<and> b_source_user_id bm = ''a0000000-0000-4000-8000-000000000001''
         \<and> b_created_item_id bm = i_id copy"
    by blast
  with ex_getViewer_bob ex_findSourceItem_dune c F show ?thesis
    by (simp add: ex_bob_def)
qed


text \<open>
  Claim C10. After a successful \<open>bookmark_item\<close> on somebody else's item, the item
  added has status \<open>Active\<close> and \<open>order_index\<close> 0, whatever the status of the source; it
  is the item the new bookmark row names.
\<close>

theorem bookmark_item_copy_is_active:
  assumes V: "getViewer ctx w = (Inr (Some v), w1)"
    and S: "findSourceItem sid w1 = Some source"
    and O: "si_owner_id source \<noteq> u_id v"
    and R: "bookmark_item ctx sid viewing w = (Inr res, w')"
  shows "\<exists>copy. items w' = items w @ [copy] \<and> i_status copy = Active \<and> i_order_index copy = 0
      \<and> i_title copy = si_title source
      \<and> b_created_item_id (last (bookmarks w')) = i_id copy
      \<and> r_message res = ''Item bookmarked.''"
proof -
  have NDB: "\<forall>e. Inr res \<noteq> (Inl (DatabaseError e) :: error + CallToolResult)" by simp
  from bookmark_item_effect [OF V S O R NDB]
  obtain copy bm where
    E: "items w' = items w1 @ [copy]" "bookmarks w' = bookmarks w1 @ [bm]"
      "i_title copy = si_title source" "i_status copy = Active" "i_order_index copy = 0"
      "b_created_item_id bm = i_id copy" and m: "r_message res = ''Item bookmarked.''"
    by blast
  note fr = getViewer_frame [OF V]
  show ?thesis
    by (intro exI [of _ copy]) (use E fr m in simp)
qed


theorem bookmark_item_copy_is_active_witness:
  "getViewer ex_auth_bob ex_world = (Inr (Some ex_bob), ex_world\<lparr>viewerCache := Some ex_bob\<rparr>)
   \<and> findSourceItem ''c0000000-0000-4000-8000-000000000001'' (ex_world\<lparr>viewerCache := Some ex_bob\<rparr>)
     = Some \<lparr>si_id = ''c0000000-0000-4000-8000-000000000001'', si_title = ''Dune'', si_note = None,
         si_url = None, si_list_id = ''b0000000-0000-4000-8000-000000000001'',
         si_list_title = ''Books'', si_list_type = ''book'',
         si_owner_id = ''a0000000-0000-4000-8000-000000000001'', si_owner_handle = ''alice''\<rparr>
   \<and> ''a0000000-0000-4000-8000-000000000001'' \<noteq> u_id ex_bob
   \<and> (\<exists>res. fst (bookmark_item ex_auth_bob ''c0000000-0000-4000-8000-000000000001'' None ex_world)
         = Inr res)
   \<and> map i_status (items ex_world) = [Done]
   \<and> (\<exists>copy.
         items (snd (bookmark_item ex_auth_bob ''c0000000-0000-4000-8000-000000000001'' None ex_world))
           = items ex_world @ [copy]
         \<and> i_status copy = Active \<and> i_order_index copy = 0 \<and> i_title copy = ''Dune'')"
proof -
  let ?r = "bookmark_item ex_auth_bob ''c0000000-0000-4000-8000-000000000001'' None ex_world"
  have O: "si_owner_id \<lparr>si_id = ''c0000000-0000-4000-8000-000000000001'', si_title = ''Dune'',
         si_note = None, si_url = None, si_list_id = ''b0000000-0000-4000-8000-000000000001'',
         si_list_title = ''Books'', si_list_type = ''book'',
         si_owner_id = ''a0000000-0000-4000-8000-000000000001'', si_owner_handle = ''alice''\<rparr>
       \<noteq> u_id ex_bob"
    by (simp add: ex_bob_def)
  from ex_bookmark_bob_ok obtain res where "fst ?r = Inr res" by blast
  then have R: "?r = (Inr res, snd ?r)" by (metis prod.collapse)
  have st: "map i_status (items ex_world) = [Done]"
    by (simp add: ex_defs)
  from bookmark_item_copy_is_active [OF ex_getViewer_bob ex_findSourceItem_dune O R]
    ex_getViewer_bob ex_findSourceItem_dune ex_bookmark_bob_ok st
  show ?thesis by (simp add: ex_bob_def) blast
qed

subsection \<open>Moving or updating an item that is not in the list\<close>

text \<open>
  Claim C9. alice owns the list "Books"; no item has the identifier she passes.
  \<open>set_item_status\<close> answers "Item moved." and names the missing item as the one last
  moved; \<open>update_item\<close> answers "Item updated.". Neither reports that the item was not
  found.
\<close>

theorem set_item_status_missing_item:
  "getListById ''b0000000-0000-4000-8000-000000000001'' ex_world \<noteq> None
   \<and> filter (\<lambda>i. i_id i = ''c0000000-0000-4000-8000-00000000ffff'') (items ex_world) = []
   \<and> map_sum id (\<lambda>res. (r_message res, r_effects res))
       (fst (set_item_status ex_auth_alice ''b0000000-0000-4000-8000-000000000001''
               ''c0000000-0000-4000-8000-00000000ffff'' Done ex_world))
       = Inr (''Item moved.'', Some (lastMovedItemId ''c0000000-0000-4000-8000-00000000ffff'' Done))
   \<and> map_sum id r_message
       (fst (update_item ex_auth_alice ''b0000000-0000-4000-8000-000000000001''
               ''c0000000-0000-4000-8000-00000000ffff'' (Some ''Emma'') None None ex_world))
       = Inr ''Item updated.''"
  by (simp add: io_defs store_defs server_defs ex_defs)

subsection \<open>Searching users\<close>

lemma like_percent:
  "like (CHR ''%'' # p) s \<longleftrightarrow> (\<exists>s1 s2. s = s1 @ s2 \<and> like p s2)"
proof (induction s)
  case Nil
  then show ?case by simp
next
  case (Cons c cs)
  have "like (CHR ''%'' # p) (c # cs) \<longleftrightarrow> like p (c # cs) \<or> like (CHR ''%'' # p) cs"
    by simp
  also have "\<dots> \<longleftrightarrow> like p (c # cs) \<or> (\<exists>s1 s2. cs = s1 @ s2 \<and> like p s2)"
    by (simp only: Cons.IH)
  also have "\<dots> \<longleftrightarrow> (\<exists>s1 s2. c # cs = s1 @ s2 \<and> like p s2)"
  proof
    assume "like p (c # cs) \<or> (\<exists>s1 s2. cs = s1 @ s2 \<and> like p s2)"
    then show "\<exists>s1 s2. c # cs = s1 @ s2 \<and> like p s2"
    proof
      assume "like p (c # cs)"
      then have "c # cs = [] @ (c # cs) \<and> like p (c # cs)" by simp
      then show ?thesis by blast
    next
      assume "\<exists>s1 s2. cs = s1 @ s2 \<and> like p s2"
      then obtain s1 s2 where "cs = s1 @ s2" "like p s2" by blast
      then have "c # cs = (c # s1) @ s2 \<and> like p s2" by simp
      then show ?thesis by blast
    qed
  next
    assume "\<exists>s1 s2. c # cs = s1 @ s2 \<and> like p s2"
    then obtain s1 s2 where s: "c # cs = s1 @ s2" "like p s2" by blast
    show "like p (c # cs) \<or> (\<exists>s1 s2. cs = s1 @ s2 \<and> like p s2)"
    proof (cases s1)
      case Nil
      with s show ?thesis by simp
    next
      case (Cons a s1')
      with s have "cs = s1' @ s2" by simp
      with s(2) show ?thesis by blast
    qed
  qed
  finally show ?case .
qed

lemma like_literal:
  "\<forall>c \<in> set q. \<not> wildcard c \<Longrightarrow> like (q @ p) s \<longleftrightarrow> (\<exists>s'. s = q @ s' \<and> like p s')"
proof (induction q arbitrary: s)
  case Nil
  then show ?case by simp
next
  case (Cons a q)
  then have a: "a \<noteq> CHR ''%''" "a \<noteq> CHR ''_''" "a \<noteq> CHR 0x5C"
    by (simp_all add: wildcard_def)
  from Cons have IH: "\<And>s. like (q @ p) s \<longleftrightarrow> (\<exists>s'. s = q @ s' \<and> like p s')" by simp
  show ?case
  proof (cases s)
    case Nil
    with a show ?thesis by simp
  next
    case (Cons c cs)
    with a IH show ?thesis by auto
  qed
qed

lemma like_any: "like ''%'' s"
  by (induction s) simp_all

lemma like_contains:
  assumes "\<forall>c \<in> set q. \<not> wildcard c"
  shows "like (''%'' @ q @ ''%'') s \<longleftrightarrow> sublist q s"
proof -
  have "like (''%'' @ q @ ''%'') s \<longleftrightarrow> (\<exists>s1 s2. s = s1 @ s2 \<and> like (q @ ''%'') s2)"
    using like_percent [of "q @ ''%''" s] by simp
  also have "\<dots> \<longleftrightarrow> (\<exists>s1 s2. s = s1 @ s2 \<and> (\<exists>s'. s2 = q @ s' \<and> like ''%'' s'))"
    by (simp only: like_literal [OF assms])
  also have "\<dots> \<longleftrightarrow> (\<exists>s1 s'. s = s1 @ q @ s')"
    by (auto simp: like_any)
  also have "\<dots> \<longleftrightarrow> sublist q s"
    by (simp add: sublist_def)
  finally show ?thesis .
qed

lemma wildcard_lower_char: "wildcard (lower_char c) \<longleftrightarrow> wildcard c"
proof (cases "65 \<le> (of_char c :: nat) \<and> (of_char c :: nat) \<le> 90")
  case True
  then have "(of_char (lower_char c) :: nat) = of_char c + 32"
    by (simp add: lower_char_def)
  with True have "(of_char (lower_char c) :: nat) \<notin> {37, 95, 92}" "(of_char c :: nat) \<notin> {37, 95, 92}"
    by auto
  then have "\<not> wildcard (lower_char c)" "\<not> wildcard c"
    by (auto simp: wildcard_def)
  then show ?thesis by simp
next
  case False
  then show ?thesis by (auto simp: lower_char_def)
qed

text \<open>
  For a query without \<^verbatim>\<open>%\<close>, \<^verbatim>\<open>_\<close> and backslash, \<open>searchUsersByQuery\<close> does return the
  users whose handle or display name contains the query, case-insensitively: the first
  twenty of them, newest account first. An empty query never reaches it.
\<close>

lemma searchUsersByQuery_plain:
  assumes "\<forall>c \<in> set queryText. \<not> wildcard c"
  shows "searchUsersByQuery queryText w =
     take 20 (order_by_desc u_created_at
       (filter (\<lambda>u. sublist (toLowerCase queryText) (toLowerCase (u_handle u)) \<or>
                    (case u_display_name u of None \<Rightarrow> False
                     | Some d \<Rightarrow> sublist (toLowerCase queryText) (toLowerCase d)))
          (users w)))"
proof -
  have "\<forall>c \<in> set (toLowerCase queryText). \<not> wildcard c"
    using assms by (simp add: toLowerCase_def wildcard_lower_char)
  note lc = like_contains [OF this]
  show ?thesis
    by (simp only: searchUsersByQuery_def Let_def lc)
qed

lemma buildSearchView_empty_query:
  "getUserById viewerId w = Some viewer \<Longrightarrow>
     map_sum id v_searchResults (fst (buildSearchView viewerId [] w)) = Inr (Some [])"
  by (simp add: buildSearchView_def buildViewerSummary_def await_def ok_def Let_def)

text \<open>
  Claim C8. The query is pasted into the \<^verbatim>\<open>like\<close> pattern unescaped, so \<^verbatim>\<open>_\<close> and \<^verbatim>\<open>%\<close>
  in it are wildcards. alice searches for \<^verbatim>\<open>_\<close>: both users are returned, although
  no handle and no display name contains an underscore.
\<close>

theorem search_wildcard_query:
  "searchUsersByQuery ''_'' ex_world = [ex_bob, ex_alice]
   \<and> \<not> sublist ''_'' (toLowerCase (u_handle ex_bob))
   \<and> \<not> sublist ''_'' (toLowerCase (u_handle ex_alice))
   \<and> u_display_name ex_bob = Some ''bob'' \<and> u_display_name ex_alice = Some ''alice''
   \<and> \<not> sublist ''_'' (toLowerCase ''bob'') \<and> \<not> sublist ''_'' (toLowerCase ''alice'')
   \<and> map_sum id (\<lambda>res. map_option (map us_handle) (v_searchResults (r_view res)))
        (fst (search_users ex_auth_alice ''_'' ex_world)) = Inr (Some [''bob'', ''alice''])"
  by (simp add: io_defs store_defs server_defs ex_defs toLowerCase_def lower_char_def
      sublist_Cons_right)

end
